theory Spec2Isabelle
  imports Main "HOL-Library.AList"
begin

section \<open>Data model of the chat client (src/src/App.tsx)\<close>

text \<open>
  The interfaces \<^verbatim>\<open>Message\<close>, \<^verbatim>\<open>Chat\<close>, \<^verbatim>\<open>ChatMetadata\<close> and \<^verbatim>\<open>Preset\<close> of the source.
  Strings are lists of characters; an optional field is an \<open>option\<close>. A message's content
  is either a string or an array of parts. Timestamps (\<^verbatim>\<open>Date.now()\<close>) are natural numbers.
\<close>

datatype role = User | Assistant | System

datatype message_kind = Reasoning | Regular

datatype content_part = TextPart string | ImageUrlPart string

datatype content = Text string | Parts "content_part list"

record message =
  msg_id :: string
  msg_role :: role
  msg_content :: content
  msg_reasoning :: "string option"
  messageType :: "message_kind option"

record chat =
  chat_id :: string
  chat_name :: string
  messages :: "message list"
  activePresetIndex :: nat
  chat_created :: nat

record chat_metadata =
  meta_id :: string
  meta_name :: string
  meta_created :: nat
  messageCount :: nat
  lastModified :: nat

text \<open>
  Of a preset only the fields that decide the message list of the outgoing request are
  kept; the numeric generation parameters are copied into the request unchanged by the
  source and play no part below.
\<close>

record preset =
  preset_name :: string
  modelId :: string
  systemPrompt :: string

record api_message =
  api_role :: role
  api_content :: content

record request_body =
  req_model :: string
  req_messages :: "api_message list"

text \<open>The value of \<^verbatim>\<open>streamingMessageRef.current\<close> when it is not null.\<close>

record stream_ref =
  ref_chatId :: string
  ref_messageId :: string
  ref_content :: string
  ref_reasoning :: "string option"

text \<open>
  The two functions the streaming loop passes to \<^verbatim>\<open>setActiveChat\<close>: the one of
  \<^verbatim>\<open>flushUpdate\<close>, which closes over \<^verbatim>\<open>finalContent\<close> and \<^verbatim>\<open>finalReasoning\<close>, and the one that
  inserts the reasoning message, with the string its \<^verbatim>\<open>uuidv4()\<close> call returns. Both read
  \<^verbatim>\<open>streamingMessageRef.current\<close> when they are run, not when they are passed.
\<close>

datatype stream_update = FlushUpdate string string | InsertReasoning string

text \<open>
  The state of the \<^verbatim>\<open>App\<close> component: its \<^verbatim>\<open>useState\<close> cells and the ref, the
  \<^verbatim>\<open>alert\<close> and console output produced so far, and the IndexedDB object store restricted
  to the conversation bodies (key \<^verbatim>\<open>ORI_chat_<id>\<close>). \<open>abortController\<close> is \<open>True\<close>
  when the cell holds a controller. \<open>pendingUpdates\<close> holds the functions the streaming
  loop has passed to \<^verbatim>\<open>setActiveChat\<close> and React has not run yet, oldest first.
\<close>

record app =
  apiKey :: string
  chatMetadatas :: "chat_metadata list"
  activeChat :: "chat option"
  activeChatId :: "string option"
  presets :: "preset list"
  isLoading :: bool
  isStreaming :: bool
  abortController :: bool
  streamingMessageRef :: "stream_ref option"
  alerts :: "string list"
  console :: "string list"
  idb :: "string \<rightharpoonup> chat"
  pendingUpdates :: "stream_update list"

section \<open>String helpers\<close>

definition startsWith :: "string \<Rightarrow> string \<Rightarrow> bool" where
  "startsWith s p = (take (length p) s = p)"

definition is_digit :: "char \<Rightarrow> bool" where
  "is_digit c = (c \<in> set ''0123456789'')"

text \<open>
  \<^verbatim>\<open>String.prototype.trim\<close> on single-byte characters: tab, line feed, vertical tab, form
  feed, carriage return, space and no-break space are white space.
\<close>

definition is_whitespace :: "char \<Rightarrow> bool" where
  "is_whitespace c = (c \<in> set [CHR 0x09, CHR 0x0A, CHR 0x0B, CHR 0x0C, CHR 0x0D, CHR 0x20, CHR 0xA0])"

definition trim :: "string \<Rightarrow> string" where
  "trim s = rev (dropWhile is_whitespace (rev (dropWhile is_whitespace s)))"

text \<open>\<^verbatim>\<open>s.substring(0, n)\<close>.\<close>

definition substring0 :: "nat \<Rightarrow> string \<Rightarrow> string" where
  "substring0 n s = take n s"

text \<open>\<^verbatim>\<open>/^Chat \d+$/.test(chat.name)\<close>: the five characters \<^verbatim>\<open>Chat \<close>, then one or more digits,
  then the end of the string.\<close>

definition hasDefaultName :: "chat \<Rightarrow> bool" where
  "hasDefaultName c =
     (startsWith (chat_name c) ''Chat '' \<and> drop 5 (chat_name c) \<noteq> []
      \<and> list_all is_digit (drop 5 (chat_name c)))"

section \<open>Metadata updates\<close>

text \<open>The \<^verbatim>\<open>Partial<ChatMetadata>\<close> arguments the handlers pass: a name, a count, both or neither.\<close>

record metadata_updates =
  upd_name :: "string option"
  upd_messageCount :: "nat option"

definition apply_updates :: "metadata_updates \<Rightarrow> nat \<Rightarrow> chat_metadata \<Rightarrow> chat_metadata" where
  "apply_updates u now meta =
     meta\<lparr>meta_name := (case upd_name u of None \<Rightarrow> meta_name meta | Some n \<Rightarrow> n),
          messageCount := (case upd_messageCount u of None \<Rightarrow> messageCount meta | Some k \<Rightarrow> k),
          lastModified := now\<rparr>"

definition updateChatMetadata :: "nat \<Rightarrow> string \<Rightarrow> metadata_updates \<Rightarrow> app \<Rightarrow> app" where
  "updateChatMetadata now chatId u s =
     s\<lparr>chatMetadatas :=
         map (\<lambda>meta. if meta_id meta = chatId then apply_updates u now meta else meta)
           (chatMetadatas s)\<rparr>"

section \<open>Sending a message: the synchronous prefix of handleSendMessage\<close>

text \<open>The \<^verbatim>\<open>catch\<close> and \<^verbatim>\<open>finally\<close> blocks of \<^verbatim>\<open>handleSendMessage\<close>; the argument of
  \<open>catch_error\<close> is \<^verbatim>\<open>error.name\<close>.\<close>

definition catch_error :: "string \<Rightarrow> app \<Rightarrow> app" where
  "catch_error name s =
     (if name = ''AbortError'' then s\<lparr>console := console s @ [''Request was aborted'']\<rparr>
      else s\<lparr>console := console s @ [''Failed to send message:''],
             alerts := alerts s @ [''Failed to send message. Please check your API key and try again.'']\<rparr>)"

definition finally_block :: "app \<Rightarrow> app" where
  "finally_block s = s\<lparr>streamingMessageRef := None, isLoading := False, isStreaming := False,
                 abortController := False\<rparr>"

definition is_reasoning_kind :: "message \<Rightarrow> bool" where
  "is_reasoning_kind m = (messageType m = Some Reasoning)"

definition to_api :: "message \<Rightarrow> api_message" where
  "to_api m = \<lparr>api_role = msg_role m, api_content = msg_content m\<rparr>"

definition new_assistant :: "string \<Rightarrow> message" where
  "new_assistant aid = \<lparr>msg_id = aid, msg_role = Assistant, msg_content = Text [],
                        msg_reasoning = None, messageType = Some Regular\<rparr>"

definition new_user :: "string \<Rightarrow> string \<Rightarrow> message" where
  "new_user uid c = \<lparr>msg_id = uid, msg_role = User, msg_content = Text c,
                     msg_reasoning = None, messageType = Some Regular\<rparr>"

text \<open>The message list and the name that \<^verbatim>\<open>handleSendMessage\<close> computes for the chat.\<close>

definition updatedMessages :: "string \<Rightarrow> string \<Rightarrow> string \<Rightarrow> chat \<Rightarrow> message list" where
  "updatedMessages content aid uid ac =
     (let messagesWithoutReasoning = filter (\<lambda>m. \<not> is_reasoning_kind m) (messages ac)
      in if content \<noteq> [] then messagesWithoutReasoning @ [new_user uid content, new_assistant aid]
         else messagesWithoutReasoning @ [new_assistant aid])"

definition updatedChatName :: "string \<Rightarrow> chat \<Rightarrow> string" where
  "updatedChatName content ac =
     (if content \<noteq> [] \<and> hasDefaultName ac then substring0 20 (trim content) else chat_name ac)"

text \<open>\<^verbatim>\<open>updatedMessages.slice(0, -1)\<close> mapped to role and content, the system prompt first
  when the preset has one.\<close>

definition apiMessages :: "preset \<Rightarrow> message list \<Rightarrow> api_message list" where
  "apiMessages p ms =
     (let messagesForApi = map to_api (butlast ms)
      in if systemPrompt p \<noteq> [] then \<lparr>api_role = System, api_content = Text (systemPrompt p)\<rparr> # messagesForApi
         else messagesForApi)"

text \<open>
  \<^verbatim>\<open>handleSendMessage\<close> up to the \<^verbatim>\<open>fetch\<close> call. \<open>aid\<close> and \<open>uid\<close> are the strings the two
  \<^verbatim>\<open>uuidv4()\<close> calls return (assistant first, as in the source), \<open>now\<close> is \<^verbatim>\<open>Date.now()\<close>.
  The result is the new state and the request body when one was built. A preset index
  out of range makes \<^verbatim>\<open>preset\<close> undefined, so \<^verbatim>\<open>preset.systemPrompt\<close> throws a TypeError
  inside the \<^verbatim>\<open>try\<close>: the \<^verbatim>\<open>catch\<close> and \<^verbatim>\<open>finally\<close> blocks run and nothing is sent.
\<close>

definition handleSendMessage :: "nat \<Rightarrow> string \<Rightarrow> string \<Rightarrow> string \<Rightarrow> app \<Rightarrow> app \<times> request_body option" where
  "handleSendMessage now content aid uid s =
     (case activeChat s of
        None \<Rightarrow> (s\<lparr>alerts := alerts s @ [''Please set your API key in settings'']\<rparr>, None)
      | Some ac \<Rightarrow>
          if apiKey s = [] then (s\<lparr>alerts := alerts s @ [''Please set your API key in settings'']\<rparr>, None)
          else
            let ms = updatedMessages content aid uid ac;
                nm = updatedChatName content ac;
                s1 = s\<lparr>activeChat := Some (ac\<lparr>messages := ms, chat_name := nm\<rparr>)\<rparr>;
                s2 = updateChatMetadata now (chat_id ac)
                       \<lparr>upd_name = Some nm, upd_messageCount = Some (length ms)\<rparr> s1;
                s3 = s2\<lparr>streamingMessageRef :=
                          Some \<lparr>ref_chatId = chat_id ac, ref_messageId = aid, ref_content = [],
                                ref_reasoning = Some []\<rparr>,
                        abortController := True, isLoading := True, isStreaming := True\<rparr>
            in if activePresetIndex ac < length (presets s)
               then (s3, Some \<lparr>req_model = modelId (presets s ! activePresetIndex ac),
                               req_messages = apiMessages (presets s ! activePresetIndex ac) ms\<rparr>)
               else (finally_block (catch_error ''TypeError'' s3), None))"

section \<open>Other handlers that change the message list\<close>

definition handleDeleteMessage :: "nat \<Rightarrow> string \<Rightarrow> app \<Rightarrow> app" where
  "handleDeleteMessage now messageId s =
     (case activeChat s of
        None \<Rightarrow> s
      | Some prev \<Rightarrow>
          let ms = filter (\<lambda>msg. msg_id msg \<noteq> messageId) (messages prev)
          in updateChatMetadata now (chat_id prev) \<lparr>upd_name = None, upd_messageCount = Some (length ms)\<rparr>
               (s\<lparr>activeChat := Some (prev\<lparr>messages := ms\<rparr>)\<rparr>))"

text \<open>\<^verbatim>\<open>handleAppendMessage\<close>; \<open>nid\<close> is the string \<^verbatim>\<open>uuidv4()\<close> returns.\<close>

definition handleAppendMessage :: "nat \<Rightarrow> string \<Rightarrow> string \<Rightarrow> app \<Rightarrow> app" where
  "handleAppendMessage now content nid s =
     (case activeChat s of
        None \<Rightarrow> s
      | Some prev \<Rightarrow>
          let newRole = (if messages prev = [] \<or> msg_role (last (messages prev)) = Assistant
                         then User else Assistant);
              newMessage = \<lparr>msg_id = nid, msg_role = newRole, msg_content = Text content,
                            msg_reasoning = None, messageType = Some Regular\<rparr>;
              nm = (if content \<noteq> [] \<and> newRole = User \<and> hasDefaultName prev
                    then substring0 20 (trim content) else chat_name prev);
              ms = messages prev @ [newMessage]
          in updateChatMetadata now (chat_id prev) \<lparr>upd_name = Some nm, upd_messageCount = Some (length ms)\<rparr>
               (s\<lparr>activeChat := Some (prev\<lparr>messages := ms, chat_name := nm\<rparr>)\<rparr>))"

section \<open>The streaming loop of handleSendMessage\<close>

text \<open>
  The variables \<^verbatim>\<open>accumulatedContent\<close>, \<^verbatim>\<open>accumulatedReasoning\<close>, \<^verbatim>\<open>updateTimer\<close> and
  \<^verbatim>\<open>controller\<close> are local to one call of \<^verbatim>\<open>handleSendMessage\<close>; \<open>updateTimer\<close> is \<open>True\<close>
  while a timeout is pending, \<open>reading\<close> while the \<^verbatim>\<open>while (true)\<close> loop has not been left,
  and \<open>aborted\<close> once \<^verbatim>\<open>abort()\<close> has been called on the controller whose signal the
  \<^verbatim>\<open>fetch\<close> of this call was given.
\<close>

record stream =
  accumulatedContent :: string
  accumulatedReasoning :: string
  updateTimer :: bool
  reading :: bool
  aborted :: bool

definition init_stream :: stream where
  "init_stream = \<lparr>accumulatedContent = [], accumulatedReasoning = [], updateTimer = False,
                  reading = True, aborted = False\<rparr>"

text \<open>
  \<^verbatim>\<open>handleStopMessage\<close>: the controller in the state cell is the one of the turn in flight,
  so \<^verbatim>\<open>abortController.abort()\<close> aborts that turn's signal.
\<close>

definition handleStopMessage :: "app \<times> stream \<Rightarrow> app \<times> stream" where
  "handleStopMessage p =
     (if abortController (fst p)
      then ((fst p)\<lparr>abortController := False, isStreaming := False, isLoading := False\<rparr>,
            (snd p)\<lparr>aborted := True\<rparr>)
      else p)"

text \<open>\<^verbatim>\<open>parsed.choices?.[0]?.delta\<close> of one decoded event: its \<^verbatim>\<open>content\<close> and \<^verbatim>\<open>reasoning\<close>
  strings when present.\<close>

record delta =
  d_content :: "string option"
  d_reasoning :: "string option"

text \<open>A JavaScript value used as a condition: a missing or empty string is falsy.\<close>

definition truthy :: "string option \<Rightarrow> bool" where
  "truthy x = (case x of None \<Rightarrow> False | Some t \<Rightarrow> t \<noteq> [])"

definition text_of :: "string option \<Rightarrow> string" where
  "text_of x = (case x of None \<Rightarrow> [] | Some t \<Rightarrow> t)"

text \<open>\<^verbatim>\<open>msg.content + finalContent\<close>: an array operand is converted to a string first, its
  elements (objects) printed as \<^verbatim>\<open>[object Object]\<close> and joined by commas.\<close>

fun join_commas :: "string list \<Rightarrow> string" where
  "join_commas [] = []"
| "join_commas [x] = x"
| "join_commas (x # y # ys) = x @ '','' @ join_commas (y # ys)"

definition content_plus :: "content \<Rightarrow> string \<Rightarrow> content" where
  "content_plus c t =
     (case c of Text x \<Rightarrow> Text (x @ t)
      | Parts ps \<Rightarrow> Text (join_commas (map (\<lambda>_. ''[object Object]'') ps) @ t))"

definition is_reasoning_msg :: "message \<Rightarrow> bool" where
  "is_reasoning_msg msg = (messageType msg = Some Reasoning \<and> startsWith (msg_id msg) ''reasoning-'')"

text \<open>The function mapped over the messages inside \<^verbatim>\<open>flushUpdate\<close>.\<close>

definition flush_msg :: "stream_ref option \<Rightarrow> string \<Rightarrow> string \<Rightarrow> message \<Rightarrow> message" where
  "flush_msg r finalContent finalReasoning msg =
     (if Some (msg_id msg) = map_option ref_messageId r
      then msg\<lparr>msg_content := content_plus (msg_content msg) finalContent\<rparr>
      else if is_reasoning_msg msg
      then msg\<lparr>msg_reasoning := Some (text_of (msg_reasoning msg) @ finalReasoning)\<rparr>
      else msg)"

text \<open>
  The function passed to \<^verbatim>\<open>setActiveChat\<close> by \<^verbatim>\<open>flushUpdate\<close>. Its guard
  \<^verbatim>\<open>!prev || prev.id !== streamingMessageRef.current?.chatId\<close> returns \<open>prev\<close> unchanged; a
  null ref gives \<^verbatim>\<open>undefined\<close>, which no id equals.
\<close>

definition flush_chat :: "stream_ref option \<Rightarrow> string \<Rightarrow> string \<Rightarrow> chat \<Rightarrow> chat" where
  "flush_chat r finalContent finalReasoning c =
     c\<lparr>messages := map (flush_msg r finalContent finalReasoning) (messages c)\<rparr>"

definition flush_updater :: "stream_ref option \<Rightarrow> string \<Rightarrow> string \<Rightarrow> chat option \<Rightarrow> chat option" where
  "flush_updater r finalContent finalReasoning prev =
     (case prev of
        None \<Rightarrow> None
      | Some c \<Rightarrow>
          if Some (chat_id c) \<noteq> map_option ref_chatId r then Some c
          else Some (flush_chat r finalContent finalReasoning c))"

text \<open>
  \<^verbatim>\<open>flushUpdate\<close> tests the ref and the buffers at the call, passes its function to
  \<^verbatim>\<open>setActiveChat\<close> and empties the buffers. The function itself runs when React runs it.
\<close>

definition flushUpdate :: "app \<times> stream \<Rightarrow> app \<times> stream" where
  "flushUpdate p =
     (let s = fst p; st = snd p
      in if streamingMessageRef s \<noteq> None \<and> (accumulatedContent st \<noteq> [] \<or> accumulatedReasoning st \<noteq> [])
         then (s\<lparr>pendingUpdates := pendingUpdates s
                    @ [FlushUpdate (accumulatedContent st) (accumulatedReasoning st)]\<rparr>,
               st\<lparr>accumulatedContent := [], accumulatedReasoning := []\<rparr>)
         else (s, st))"

text \<open>\<^verbatim>\<open>Array.prototype.findIndex\<close> (\<open>-1\<close> when no element satisfies the predicate) and
  \<^verbatim>\<open>splice(start, 0, x)\<close>, where a negative \<open>start\<close> counts from the end.\<close>

fun findIndex :: "('a \<Rightarrow> bool) \<Rightarrow> 'a list \<Rightarrow> int" where
  "findIndex P [] = - 1"
| "findIndex P (x # xs) =
     (if P x then 0 else (let r = findIndex P xs in if r < 0 then - 1 else r + 1))"

definition splice_insert :: "int \<Rightarrow> 'a \<Rightarrow> 'a list \<Rightarrow> 'a list" where
  "splice_insert start x xs =
     (let n = int (length xs);
          k = (if start < 0 then max (n + start) 0 else min start n)
      in take (nat k) xs @ [x] @ drop (nat k) xs)"

text \<open>The function passed to \<^verbatim>\<open>setActiveChat\<close> on a reasoning delta; \<open>u\<close> is the string
  \<^verbatim>\<open>uuidv4()\<close> returns there.\<close>

definition new_reasoning :: "string \<Rightarrow> message" where
  "new_reasoning u = \<lparr>msg_id = ''reasoning-'' @ u, msg_role = Assistant, msg_content = Text [],
                      msg_reasoning = Some [], messageType = Some Reasoning\<rparr>"

definition insert_reasoning :: "stream_ref option \<Rightarrow> string \<Rightarrow> chat \<Rightarrow> chat" where
  "insert_reasoning r u c =
     (if find is_reasoning_msg (messages c) = None
      then c\<lparr>messages :=
               splice_insert
                 (findIndex (\<lambda>msg. Some (msg_id msg) = map_option ref_messageId r) (messages c))
                 (new_reasoning u) (messages c)\<rparr>
      else c)"

definition reasoning_updater :: "stream_ref option \<Rightarrow> string \<Rightarrow> chat option \<Rightarrow> chat option" where
  "reasoning_updater r u prev =
     (case prev of
        None \<Rightarrow> None
      | Some c \<Rightarrow>
          if Some (chat_id c) \<noteq> map_option ref_chatId r then Some c
          else Some (insert_reasoning r u c))"

text \<open>The body of the \<^verbatim>\<open>try\<close> inside the line loop, for one decoded delta.\<close>

definition handle_delta :: "delta \<Rightarrow> string \<Rightarrow> app \<times> stream \<Rightarrow> app \<times> stream" where
  "handle_delta d u p =
     (let s = fst p; st = snd p;
          st1 = (if truthy (d_content d)
                 then st\<lparr>accumulatedContent := accumulatedContent st @ text_of (d_content d),
                         updateTimer := True\<rparr>
                 else st)
      in if truthy (d_reasoning d)
         then (s\<lparr>pendingUpdates := pendingUpdates s @ [InsertReasoning u]\<rparr>,
               st1\<lparr>accumulatedReasoning := accumulatedReasoning st1 @ text_of (d_reasoning d),
                   updateTimer := True\<rparr>)
         else (s, st1))"

text \<open>
  React running the pending functions, oldest first, each on the result of the one
  before and with the ref as it is at that moment.
\<close>

fun run_update :: "stream_ref option \<Rightarrow> stream_update \<Rightarrow> chat option \<Rightarrow> chat option" where
  "run_update r (FlushUpdate finalContent finalReasoning) prev = flush_updater r finalContent finalReasoning prev"
| "run_update r (InsertReasoning u) prev = reasoning_updater r u prev"

definition render :: "app \<Rightarrow> app" where
  "render s =
     s\<lparr>activeChat := foldl (\<lambda>prev upd. run_update (streamingMessageRef s) upd prev)
                       (activeChat s) (pendingUpdates s),
       pendingUpdates := []\<rparr>"

text \<open>The end of the \<^verbatim>\<open>try\<close> statement after a rejected \<^verbatim>\<open>await\<close>: \<^verbatim>\<open>catch\<close>, then \<^verbatim>\<open>finally\<close>.\<close>

definition exit_with :: "string \<Rightarrow> app \<times> stream \<Rightarrow> app \<times> stream" where
  "exit_with name p = (finally_block (catch_error name (fst p)), (snd p)\<lparr>reading := False\<rparr>)"

text \<open>
  What can happen to a running turn.
  \<^item> \<open>Delta\<close>: a delta is decoded.
  \<^item> \<open>Tick\<close>: the 50 ms timeout fires. The source never clears it, so it can still fire
    after the loop has been left.
  \<^item> \<open>Done\<close>: the reader reports \<^verbatim>\<open>done\<close>; \<^verbatim>\<open>flushUpdate()\<close> is called, the loop is left and
    the \<^verbatim>\<open>finally\<close> block clears the ref, all in one go, so the function of this last flush
    runs only after the ref is null.
  \<^item> \<open>DoneEager\<close>: the same when React has no update pending and therefore runs the
    function at the \<^verbatim>\<open>setActiveChat\<close> call, before the \<^verbatim>\<open>finally\<close> block; with an update
    pending React cannot do so and the event is \<open>Done\<close>.
  \<^item> \<open>Reject\<close>: \<^verbatim>\<open>fetch\<close> or \<^verbatim>\<open>reader.read()\<close> throws an error of the given name.
  \<^item> \<open>Render\<close>: React runs the pending functions. A render right after a delta or a
    timeout covers React running a function at the call there, since the ref does not
    change in between.

  Once the turn's signal is aborted the pending read rejects with an \<^verbatim>\<open>AbortError\<close>,
  whatever the network would have delivered.
\<close>

datatype stream_event = Delta delta string | Tick | Done | DoneEager | Reject string | Render

definition is_network :: "stream_event \<Rightarrow> bool" where
  "is_network ev =
     (case ev of Delta d u \<Rightarrow> True | Tick \<Rightarrow> False | Done \<Rightarrow> True | DoneEager \<Rightarrow> True
      | Reject name \<Rightarrow> True | Render \<Rightarrow> False)"

fun network_step :: "stream_event \<Rightarrow> app \<times> stream \<Rightarrow> app \<times> stream" where
  "network_step (Delta d u) p = handle_delta d u p"
| "network_step Done p =
     (let q = flushUpdate p in (finally_block (fst q), (snd q)\<lparr>reading := False\<rparr>))"
| "network_step DoneEager p =
     (let q = flushUpdate p;
          s = (if pendingUpdates (fst p) = [] then render (fst q) else fst q)
      in (finally_block s, (snd q)\<lparr>reading := False\<rparr>))"
| "network_step (Reject name) p = exit_with name p"
| "network_step ev p = p"

fun stream_step :: "stream_event \<Rightarrow> app \<times> stream \<Rightarrow> app \<times> stream" where
  "stream_step Tick p =
     (if updateTimer (snd p)
      then (let q = flushUpdate p in (fst q, (snd q)\<lparr>updateTimer := False\<rparr>))
      else p)"
| "stream_step Render p = (render (fst p), snd p)"
| "stream_step ev p =
     (if \<not> reading (snd p) then p
      else if aborted (snd p) then exit_with ''AbortError'' p
      else network_step ev p)"

definition run_stream :: "stream_event list \<Rightarrow> app \<times> stream \<Rightarrow> app \<times> stream" where
  "run_stream evs p = foldl (\<lambda>q e. stream_step e q) p evs"

section \<open>Decoding the response body\<close>

text \<open>\<^verbatim>\<open>chunk.split("\n")\<close>: the pieces between line feeds; an empty string gives one empty piece.\<close>

fun split_lines :: "string \<Rightarrow> string list" where
  "split_lines [] = [[]]"
| "split_lines (c # cs) =
     (if c = CHR 0x0A then [] # split_lines cs
      else (case split_lines cs of [] \<Rightarrow> [[c]] | l # ls \<Rightarrow> (c # l) # ls))"

text \<open>
  The strings handed to \<^verbatim>\<open>JSON.parse\<close> for one chunk read: of each line that starts with
  \<^verbatim>\<open>data: \<close> the rest after these six characters, unless it is \<^verbatim>\<open>[DONE]\<close>.
\<close>

definition sse_payloads :: "string \<Rightarrow> string list" where
  "sse_payloads chunk =
     filter (\<lambda>data. data \<noteq> ''[DONE]'')
       (map (drop 6) (filter (\<lambda>line. startsWith line ''data: '') (split_lines chunk)))"

text \<open>
  \<^verbatim>\<open>JSON.parse\<close> and the selection \<^verbatim>\<open>choices?.[0]?.delta\<close> are a parameter \<open>parse\<close>; \<open>None\<close>
  stands for a payload on which they throw, which the source logs and skips. The
  \<^verbatim>\<open>while\<close> loop decodes each chunk read on its own and keeps nothing between reads.
\<close>

definition chunk_deltas :: "(string \<Rightarrow> delta option) \<Rightarrow> string \<Rightarrow> delta list" where
  "chunk_deltas parse chunk = List.map_filter parse (sse_payloads chunk)"

definition stream_payloads :: "string list \<Rightarrow> string list" where
  "stream_payloads chunks = concat (map sse_payloads chunks)"

definition stream_deltas :: "(string \<Rightarrow> delta option) \<Rightarrow> string list \<Rightarrow> delta list" where
  "stream_deltas parse chunks = concat (map (chunk_deltas parse) chunks)"

text \<open>A chunk read that ends at a line boundary (or is empty).\<close>

definition line_aligned :: "string \<Rightarrow> bool" where
  "line_aligned chunk = (chunk = [] \<or> last chunk = CHR 0x0A)"

section \<open>The debounced save (createDebouncedSave)\<close>

text \<open>
  \<^verbatim>\<open>pendingSaves\<close> is a JavaScript \<^verbatim>\<open>Map\<close>: setting a key that is present replaces its value
  in place, a new key goes to the end. \<open>timerPending\<close> tells whether the debounce
  timeout of one second is running; each call restarts it, so it fires only once no call
  has come for a second. \<open>executeSave\<close> is the debounced function body: it returns the
  \<^verbatim>\<open>setItem\<close> calls it makes, in order, and empties the map.
\<close>

record debounced =
  pendingSaves :: "(string \<times> chat) list"
  timerPending :: bool

definition createDebouncedSave :: debounced where
  "createDebouncedSave = \<lparr>pendingSaves = [], timerPending = False\<rparr>"

definition chat_key :: "string \<Rightarrow> string" where
  "chat_key chatId = ''ORI_chat_'' @ chatId"

definition debouncedSaveChat :: "string \<Rightarrow> chat \<Rightarrow> debounced \<Rightarrow> debounced" where
  "debouncedSaveChat chatId c d =
     d\<lparr>pendingSaves := AList.update chatId c (pendingSaves d), timerPending := True\<rparr>"

definition executeSave :: "debounced \<Rightarrow> (string \<times> chat) list \<times> debounced" where
  "executeSave d =
     (map (\<lambda>(chatId, c). (chat_key chatId, c)) (pendingSaves d),
      d\<lparr>pendingSaves := [], timerPending := False\<rparr>)"

text \<open>The coalescer together with the trace of \<^verbatim>\<open>setItem\<close> calls made so far.\<close>

datatype save_event = Schedule string chat | TimerFires

fun save_step :: "save_event \<Rightarrow> debounced \<times> (string \<times> chat) list \<Rightarrow> debounced \<times> (string \<times> chat) list" where
  "save_step (Schedule chatId c) p = (debouncedSaveChat chatId c (fst p), snd p)"
| "save_step TimerFires p =
     (if timerPending (fst p)
      then (snd (executeSave (fst p)), snd p @ fst (executeSave (fst p)))
      else p)"

definition run_saves :: "save_event list \<Rightarrow> debounced \<times> (string \<times> chat) list \<Rightarrow> debounced \<times> (string \<times> chat) list" where
  "run_saves evs p = foldl (\<lambda>q e. save_step e q) p evs"

text \<open>
  A run of calls with no firing of the timeout between them, and the map they leave
  behind when they start from the entries \<open>ps\<close>.
\<close>

definition schedule_all :: "(string \<times> chat) list \<Rightarrow> save_event list" where
  "schedule_all ops = map (\<lambda>p. Schedule (fst p) (snd p)) ops"

definition pending_after :: "(string \<times> chat) list \<Rightarrow> (string \<times> chat) list \<Rightarrow> (string \<times> chat) list" where
  "pending_after ps ops = foldl (\<lambda>al p. AList.update (fst p) (snd p) al) ps ops"

section \<open>Selecting and deleting a conversation\<close>

text \<open>\<^verbatim>\<open>setItem\<close>, \<^verbatim>\<open>deleteItem\<close> and \<^verbatim>\<open>loadChat\<close> on the conversation bodies of the store.\<close>

definition setItem :: "string \<Rightarrow> chat \<Rightarrow> app \<Rightarrow> app" where
  "setItem key c s = s\<lparr>idb := (idb s)(key \<mapsto> c)\<rparr>"

definition deleteItem :: "string \<Rightarrow> app \<Rightarrow> app" where
  "deleteItem key s = s\<lparr>idb := (idb s)(key := None)\<rparr>"

definition loadChat :: "string \<Rightarrow> app \<Rightarrow> chat option" where
  "loadChat chatId s = idb s (chat_key chatId)"

definition handleSelectChat :: "string \<Rightarrow> app \<Rightarrow> app" where
  "handleSelectChat chatId s =
     (if Some chatId = activeChatId s then s
      else
        let s1 = (case activeChat s of None \<Rightarrow> s | Some ac \<Rightarrow> setItem (chat_key (chat_id ac)) ac s)
        in case loadChat chatId s1 of
             None \<Rightarrow> s1
           | Some c \<Rightarrow> s1\<lparr>activeChat := Some c, activeChatId := Some chatId\<rparr>)"

text \<open>\<^verbatim>\<open>remainingChats.reduce((newest, current) => current.created > newest.created ? current : newest)\<close>
  on a list that is not empty.\<close>

definition newest_of :: "chat_metadata \<Rightarrow> chat_metadata list \<Rightarrow> chat_metadata" where
  "newest_of m ms =
     foldl (\<lambda>newest current. if meta_created current > meta_created newest then current else newest) m ms"

definition handleDeleteChat :: "string \<Rightarrow> app \<Rightarrow> app" where
  "handleDeleteChat chatId s =
     (let s1 = deleteItem (chat_key chatId) s;
          s2 = s1\<lparr>chatMetadatas := filter (\<lambda>meta. meta_id meta \<noteq> chatId) (chatMetadatas s1)\<rparr>
      in if activeChatId s = Some chatId
         then (case filter (\<lambda>meta. meta_id meta \<noteq> chatId) (chatMetadatas s) of
                 [] \<Rightarrow> s2\<lparr>activeChat := None, activeChatId := None\<rparr>
               | m # ms \<Rightarrow> handleSelectChat (meta_id (newest_of m ms)) s2)
         else s2)"

section \<open>Sequences of operations on the active conversation\<close>

text \<open>
  What the user, the network and React do to the active conversation, one step at a time.
  The handlers run in user events, whose state updates React commits before the next
  event, and their updates do not read the ref. A send that reaches \<^verbatim>\<open>fetch\<close> starts a turn
  with fresh local variables; the local variables of the turn before it, and a timeout it
  may have left pending, are not followed further.
\<close>

datatype chat_op =
    Send nat string string string
  | Append nat string string
  | DeleteMessage nat string
  | Stop
  | Stream stream_event

fun apply_op :: "chat_op \<Rightarrow> app \<times> stream \<Rightarrow> app \<times> stream" where
  "apply_op (Send now content aid uid) p =
     (case handleSendMessage now content aid uid (fst p) of
        (s', None) \<Rightarrow> (s', snd p)
      | (s', Some req) \<Rightarrow> (s', init_stream))"
| "apply_op (Append now content nid) p = (handleAppendMessage now content nid (fst p), snd p)"
| "apply_op (DeleteMessage now messageId) p = (handleDeleteMessage now messageId (fst p), snd p)"
| "apply_op Stop p = handleStopMessage p"
| "apply_op (Stream ev) p = stream_step ev p"

definition run_ops :: "chat_op list \<Rightarrow> app \<times> stream \<Rightarrow> app \<times> stream" where
  "run_ops ops p = foldl (\<lambda>q x. apply_op x q) p ops"

section \<open>Concrete states used as examples\<close>

definition demo_messages :: "message list" where
  "demo_messages =
     [\<lparr>msg_id = ''u0'', msg_role = User, msg_content = Text ''turn 1'', msg_reasoning = None,
       messageType = Some Regular\<rparr>,
      \<lparr>msg_id = ''reasoning-r0'', msg_role = Assistant, msg_content = Text [],
       msg_reasoning = Some ''thinking'', messageType = Some Reasoning\<rparr>,
      \<lparr>msg_id = ''a0'', msg_role = Assistant, msg_content = Text ''turn 2'', msg_reasoning = None,
       messageType = Some Regular\<rparr>]"

definition demo_chat :: "string \<Rightarrow> message list \<Rightarrow> chat" where
  "demo_chat nm ms = \<lparr>chat_id = ''c1'', chat_name = nm, messages = ms, activePresetIndex = 0,
                      chat_created = 1\<rparr>"

definition demo_app :: "string \<Rightarrow> message list \<Rightarrow> app" where
  "demo_app nm ms =
     \<lparr>apiKey = ''key'',
      chatMetadatas = [\<lparr>meta_id = ''c1'', meta_name = nm, meta_created = 1,
                        messageCount = length ms, lastModified = 1\<rparr>],
      activeChat = Some (demo_chat nm ms),
      activeChatId = Some ''c1'',
      presets = [\<lparr>preset_name = ''Preset 1'', modelId = ''m'', systemPrompt = []\<rparr>],
      isLoading = False, isStreaming = False, abortController = False,
      streamingMessageRef = None, alerts = [], console = [],
      idb = [chat_key ''c1'' \<mapsto> demo_chat nm ms], pendingUpdates = []\<rparr>"

definition answer :: "string \<Rightarrow> delta" where
  "answer t = \<lparr>d_content = Some t, d_reasoning = None\<rparr>"

definition thought :: "string \<Rightarrow> delta" where
  "thought t = \<lparr>d_content = None, d_reasoning = Some t\<rparr>"

text \<open>A turn in which the answer deltas \<^verbatim>\<open>Hel\<close> and \<^verbatim>\<open>lo\<close> have arrived and have been
  applied to the assistant message.\<close>

definition demo_turn :: "app \<times> stream" where
  "demo_turn =
     run_ops [Send 2 ''Say hello'' ''a1'' ''u1'', Stream (Delta (answer ''Hel'') ''r1''), Stream Tick,
              Stream Render, Stream (Delta (answer ''lo'') ''r2''), Stream Tick, Stream Render]
       (demo_app ''Chat 1'' [], init_stream)"

text \<open>The active conversation has the name \<open>n\<close>, and \<open>n\<close> is not a default name.\<close>

definition named :: "string \<Rightarrow> app \<Rightarrow> bool" where
  "named n s = (\<exists>ac. activeChat s = Some ac \<and> chat_name ac = n \<and> \<not> hasDefaultName ac)"

section \<open>Predicates used in the statements\<close>

text \<open>
  The ref is null, or no conversation is active, or the ref names a conversation other
  than the active one: the state in which the identity check of the stream's updaters fails.
\<close>

definition foreign_stream :: "app \<Rightarrow> bool" where
  "foreign_stream s =
     (case activeChat s of
        None \<Rightarrow> True
      | Some c \<Rightarrow> (case streamingMessageRef s of None \<Rightarrow> True | Some r \<Rightarrow> chat_id c \<noteq> ref_chatId r))"

text \<open>A second conversation, whose only message has the id of the first one's placeholder.\<close>

definition demo_other :: chat where
  "demo_other = \<lparr>chat_id = ''c2'', chat_name = ''Other'', messages = [new_assistant ''a1''],
                 activePresetIndex = 0, chat_created = 2\<rparr>"

text \<open>Two conversations in the index and in the store, the older one active.\<close>

definition demo_two :: app where
  "demo_two =
     (demo_app ''Chat 1'' [])
       \<lparr>chatMetadatas :=
          [\<lparr>meta_id = ''c1'', meta_name = ''Chat 1'', meta_created = 1, messageCount = 0, lastModified = 1\<rparr>,
           \<lparr>meta_id = ''c2'', meta_name = ''Other'', meta_created = 2, messageCount = 1, lastModified = 2\<rparr>],
        idb := [chat_key ''c1'' \<mapsto> demo_chat ''Chat 1'' [], chat_key ''c2'' \<mapsto> demo_other]\<rparr>"

lemmas model_defs = run_ops_def handleSendMessage_def updatedMessages_def updatedChatName_def
  updateChatMetadata_def apply_updates_def apiMessages_def new_user_def new_assistant_def
  hasDefaultName_def startsWith_def is_digit_def trim_def substring0_def is_whitespace_def
  is_reasoning_kind_def to_api_def init_stream_def handle_delta_def truthy_def text_of_def
  reasoning_updater_def insert_reasoning_def new_reasoning_def is_reasoning_msg_def
  splice_insert_def flushUpdate_def flush_updater_def flush_chat_def flush_msg_def
  content_plus_def finally_block_def catch_error_def handleStopMessage_def
  handleAppendMessage_def handleDeleteMessage_def render_def exit_with_def run_stream_def
  demo_app_def demo_chat_def demo_messages_def answer_def thought_def Let_def

section \<open>Reasoning messages are stripped on send\<close>

text \<open>
  C8. When a send passes its gate (an active conversation, an API key, a preset for the
  conversation's index), the new message list holds no message of kind reasoning: it is
  the old list without its reasoning messages, in the old order, followed by the new user
  message (when the content is not empty) and the assistant placeholder. The messages of
  the request body are built from that list without the placeholder, after the system
  prompt when there is one.
\<close>

theorem reasoning_stripped_on_send:
  assumes "activeChat s = Some ac" and "apiKey s \<noteq> []" and "activePresetIndex ac < length (presets s)"
  shows "\<exists>s' req ac'.
           handleSendMessage now content aid uid s = (s', Some req) \<and> activeChat s' = Some ac'
           \<and> (\<forall>m \<in> set (messages ac'). \<not> is_reasoning_kind m)
           \<and> messages ac' = filter (\<lambda>m. \<not> is_reasoning_kind m) (messages ac)
                 @ (if content \<noteq> [] then [new_user uid content] else []) @ [new_assistant aid]
           \<and> req_messages req =
               (if systemPrompt (presets s ! activePresetIndex ac) \<noteq> []
                then [\<lparr>api_role = System, api_content = Text (systemPrompt (presets s ! activePresetIndex ac))\<rparr>]
                else [])
               @ map to_api (filter (\<lambda>m. \<not> is_reasoning_kind m) (messages ac))
               @ (if content \<noteq> [] then [to_api (new_user uid content)] else [])"
  using assms
  by (simp add: handleSendMessage_def Let_def updateChatMetadata_def updatedMessages_def apiMessages_def
        is_reasoning_kind_def new_user_def new_assistant_def butlast_append)

theorem reasoning_stripped_on_send_witness:
  "activeChat (demo_app ''My custom chat'' demo_messages) = Some (demo_chat ''My custom chat'' demo_messages)
   \<and> apiKey (demo_app ''My custom chat'' demo_messages) \<noteq> []
   \<and> activePresetIndex (demo_chat ''My custom chat'' demo_messages)
        < length (presets (demo_app ''My custom chat'' demo_messages))
   \<and> (\<exists>s' req ac'.
         handleSendMessage 2 ''turn 3'' ''a1'' ''u1'' (demo_app ''My custom chat'' demo_messages) = (s', Some req)
         \<and> activeChat s' = Some ac'
         \<and> map msg_id (messages ac') = [''u0'', ''a0'', ''u1'', ''a1'']
         \<and> map api_content (req_messages req) = [Text ''turn 1'', Text ''turn 2'', Text ''turn 3''])"
proof -
  have h1: "activeChat (demo_app ''My custom chat'' demo_messages) = Some (demo_chat ''My custom chat'' demo_messages)"
    by (simp add: demo_app_def)
  have h2: "apiKey (demo_app ''My custom chat'' demo_messages) \<noteq> []"
    by (simp add: demo_app_def)
  have h3: "activePresetIndex (demo_chat ''My custom chat'' demo_messages)
              < length (presets (demo_app ''My custom chat'' demo_messages))"
    by (simp add: demo_app_def demo_chat_def)
  from reasoning_stripped_on_send [OF h1 h2 h3, of 2 "''turn 3''" "''a1''" "''u1''"]
  obtain s' req ac' where
    a: "handleSendMessage 2 ''turn 3'' ''a1'' ''u1'' (demo_app ''My custom chat'' demo_messages) = (s', Some req)"
    and b: "activeChat s' = Some ac'"
    and c: "messages ac' = filter (\<lambda>m. \<not> is_reasoning_kind m) (messages (demo_chat ''My custom chat'' demo_messages))
              @ (if ''turn 3'' \<noteq> [] then [new_user ''u1'' ''turn 3''] else []) @ [new_assistant ''a1'']"
    and d: "req_messages req =
              (if systemPrompt (presets (demo_app ''My custom chat'' demo_messages)
                     ! activePresetIndex (demo_chat ''My custom chat'' demo_messages)) \<noteq> []
               then [\<lparr>api_role = System, api_content = Text (systemPrompt (presets (demo_app ''My custom chat'' demo_messages)
                     ! activePresetIndex (demo_chat ''My custom chat'' demo_messages)))\<rparr>]
               else [])
              @ map to_api (filter (\<lambda>m. \<not> is_reasoning_kind m) (messages (demo_chat ''My custom chat'' demo_messages)))
              @ (if ''turn 3'' \<noteq> [] then [to_api (new_user ''u1'' ''turn 3'')] else [])"
    by blast
  have c': "map msg_id (messages ac') = [''u0'', ''a0'', ''u1'', ''a1'']"
    by (simp add: c demo_chat_def demo_messages_def is_reasoning_kind_def new_user_def new_assistant_def)
  have d': "map api_content (req_messages req) = [Text ''turn 1'', Text ''turn 2'', Text ''turn 3'']"
    by (simp add: d demo_app_def demo_chat_def demo_messages_def is_reasoning_kind_def new_user_def to_api_def)
  show ?thesis
    by (intro conjI exI[of _ s'] exI[of _ req] exI[of _ ac']) (rule h1 h2 h3 a b c' d')+
qed

section \<open>What the stream steps leave alone\<close>

lemma flushUpdate_app:
  "activeChat (fst (flushUpdate p)) = activeChat (fst p)"
  "streamingMessageRef (fst (flushUpdate p)) = streamingMessageRef (fst p)"
  "alerts (fst (flushUpdate p)) = alerts (fst p)"
  "console (fst (flushUpdate p)) = console (fst p)"
  "reading (snd (flushUpdate p)) = reading (snd p)"
  "aborted (snd (flushUpdate p)) = aborted (snd p)"
  by (simp_all add: flushUpdate_def Let_def)

lemma handle_delta_app:
  "activeChat (fst (handle_delta d u p)) = activeChat (fst p)"
  "streamingMessageRef (fst (handle_delta d u p)) = streamingMessageRef (fst p)"
  by (simp_all add: handle_delta_def Let_def)

lemma run_updates_null:
  "foldl (\<lambda>prev upd. run_update None upd prev) c q = c"
proof (induction q arbitrary: c)
  case Nil
  then show ?case by simp
next
  case (Cons upd q)
  have "run_update None upd c = c"
    by (cases upd; cases c) (simp_all add: flush_updater_def reasoning_updater_def)
  with Cons show ?case by simp
qed

lemma render_null_ref:
  "streamingMessageRef s = None \<Longrightarrow> activeChat (render s) = activeChat s"
  by (simp add: render_def run_updates_null)

section \<open>Automatic renaming\<close>

lemma flush_chat_name [simp]: "chat_name (flush_chat r a b c) = chat_name c"
  by (simp add: flush_chat_def)

lemma insert_reasoning_name [simp]: "chat_name (insert_reasoning r u c) = chat_name c"
  by (simp add: insert_reasoning_def)

lemma run_update_named:
  "prev = Some c \<Longrightarrow> \<exists>c'. run_update r upd prev = Some c' \<and> chat_name c' = chat_name c"
  by (cases upd) (simp_all add: flush_updater_def reasoning_updater_def)

lemma run_updates_named:
  "prev = Some c \<Longrightarrow>
   \<exists>c'. foldl (\<lambda>prev upd. run_update r upd prev) prev q = Some c' \<and> chat_name c' = chat_name c"
proof (induction q arbitrary: prev c)
  case Nil
  then show ?case by simp
next
  case (Cons upd q)
  from run_update_named [OF Cons.prems, of r upd] obtain c1 where
    c1: "run_update r upd prev = Some c1" "chat_name c1 = chat_name c" by blast
  from Cons.IH [OF c1(1)] c1(2) show ?case by simp
qed

lemma render_named: "named n s \<Longrightarrow> named n (render s)"
proof -
  assume "named n s"
  then obtain c where c: "activeChat s = Some c" "chat_name c = n" "\<not> hasDefaultName c"
    by (auto simp: named_def)
  from run_updates_named [OF c(1), of "streamingMessageRef s" "pendingUpdates s"] c(2,3)
  show ?thesis by (auto simp: named_def render_def hasDefaultName_def)
qed

lemma named_same_chat: "activeChat s' = activeChat s \<Longrightarrow> named n s \<Longrightarrow> named n s'"
  by (simp add: named_def)

lemma network_step_named: "named n (fst p) \<Longrightarrow> named n (fst (network_step ev p))"
proof (cases ev)
  case DoneEager
  assume n: "named n (fst p)"
  then have "named n (fst (flushUpdate p))" by (rule named_same_chat [rotated]) (simp add: flushUpdate_app)
  then have "named n (render (fst (flushUpdate p)))" by (rule render_named)
  with \<open>named n (fst (flushUpdate p))\<close> DoneEager show ?thesis
    by (simp add: Let_def named_def finally_block_def)
qed (auto simp: Let_def named_def finally_block_def catch_error_def exit_with_def flushUpdate_app handle_delta_app)

lemma stream_step_named: "named n (fst p) \<Longrightarrow> named n (fst (stream_step ev p))"
  using network_step_named [of n p ev] render_named [of n "fst p"]
  by (cases ev)
     (auto simp: Let_def named_def finally_block_def catch_error_def exit_with_def flushUpdate_app)

lemma send_named: "named n s \<Longrightarrow> named n (fst (handleSendMessage now content aid uid s))"
  by (auto simp: named_def handleSendMessage_def Let_def updateChatMetadata_def finally_block_def
      catch_error_def updatedChatName_def hasDefaultName_def)

lemma append_named: "named n s \<Longrightarrow> named n (handleAppendMessage now content nid s)"
  by (auto simp: named_def handleAppendMessage_def Let_def updateChatMetadata_def hasDefaultName_def)

lemma delete_named: "named n s \<Longrightarrow> named n (handleDeleteMessage now mid s)"
  by (auto simp: named_def handleDeleteMessage_def Let_def updateChatMetadata_def hasDefaultName_def)

lemma stop_named: "named n (fst p) \<Longrightarrow> named n (fst (handleStopMessage p))"
  by (auto simp: named_def handleStopMessage_def)

lemma apply_op_named: "named n (fst p) \<Longrightarrow> named n (fst (apply_op x p))"
proof (cases x)
  case (Send now content aid uid)
  assume "named n (fst p)"
  then have "named n (fst (handleSendMessage now content aid uid (fst p)))" by (rule send_named)
  then show ?thesis using Send by (auto split: prod.splits option.splits)
qed (simp_all add: append_named delete_named stop_named stream_step_named)

lemma run_ops_named: "named n (fst p) \<Longrightarrow> named n (fst (run_ops ops p))"
  unfolding run_ops_def
  by (induction ops arbitrary: p) (simp_all add: apply_op_named)

lemma send_active:
  "activeChat s = Some ac \<Longrightarrow> apiKey s \<noteq> [] \<Longrightarrow>
   activeChat (fst (handleSendMessage now content aid uid s)) =
     Some (ac\<lparr>messages := updatedMessages content aid uid ac, chat_name := updatedChatName content ac\<rparr>)"
  by (simp add: handleSendMessage_def Let_def updateChatMetadata_def finally_block_def catch_error_def)

lemma send_metadata:
  "activeChat s = Some ac \<Longrightarrow> apiKey s \<noteq> [] \<Longrightarrow>
   chatMetadatas (fst (handleSendMessage now content aid uid s)) =
     map (\<lambda>meta. if meta_id meta = chat_id ac
                 then apply_updates \<lparr>upd_name = Some (updatedChatName content ac),
                                     upd_messageCount = Some (length (updatedMessages content aid uid ac))\<rparr> now meta
                 else meta) (chatMetadatas s)"
  by (simp add: handleSendMessage_def Let_def updateChatMetadata_def finally_block_def catch_error_def)

text \<open>The pattern, spelled out on the name.\<close>

lemma startsWith_iff: "startsWith s p \<longleftrightarrow> (\<exists>t. s = p @ t)"
proof
  assume "startsWith s p"
  then have "s = p @ drop (length p) s"
    by (metis append_take_drop_id startsWith_def)
  then show "\<exists>t. s = p @ t" ..
next
  assume "\<exists>t. s = p @ t"
  then show "startsWith s p" by (auto simp: startsWith_def)
qed

lemma hasDefaultName_iff:
  "hasDefaultName c \<longleftrightarrow> (\<exists>ds. chat_name c = ''Chat '' @ ds \<and> ds \<noteq> [] \<and> set ds \<subseteq> set ''0123456789'')"
proof
  assume h: "hasDefaultName c"
  then obtain t where t: "chat_name c = ''Chat '' @ t"
    unfolding hasDefaultName_def startsWith_iff by blast
  have dr: "drop 5 (chat_name c) = t" by (simp add: t)
  from h have "t \<noteq> []" and "list_all is_digit t"
    unfolding hasDefaultName_def dr by simp_all
  then have "t \<noteq> [] \<and> set t \<subseteq> set ''0123456789''"
    by (auto simp: list_all_iff is_digit_def)
  with t show "\<exists>ds. chat_name c = ''Chat '' @ ds \<and> ds \<noteq> [] \<and> set ds \<subseteq> set ''0123456789''"
    by blast
next
  assume "\<exists>ds. chat_name c = ''Chat '' @ ds \<and> ds \<noteq> [] \<and> set ds \<subseteq> set ''0123456789''"
  then obtain ds where ds: "chat_name c = ''Chat '' @ ds" "ds \<noteq> []" "set ds \<subseteq> set ''0123456789''"
    by blast
  from ds(3) have "list_all is_digit ds" by (auto simp: list_all_iff is_digit_def)
  moreover have "startsWith (chat_name c) ''Chat ''" unfolding startsWith_iff using ds(1) by blast
  moreover have "drop 5 (chat_name c) = ds" by (simp add: ds(1))
  ultimately show "hasDefaultName c"
    using ds(2) by (simp add: hasDefaultName_def)
qed

text \<open>Trimming removes the white space around a core that neither starts nor ends with it.\<close>

lemma dropWhile_core:
  assumes "list_all P l" and "core \<noteq> []" and "\<not> P (hd core)"
  shows "dropWhile P (l @ core @ r) = core @ r"
proof -
  from assms(1) have "dropWhile P (l @ core @ r) = dropWhile P (core @ r)"
    by (simp add: list_all_iff)
  also from assms(2,3) have "\<dots> = core @ r" by (cases core) simp_all
  finally show ?thesis .
qed

lemma trim_core:
  assumes "list_all is_whitespace l" and "list_all is_whitespace r" and "core \<noteq> []"
    and "\<not> is_whitespace (hd core)" and "\<not> is_whitespace (last core)"
  shows "trim (l @ core @ r) = core"
proof -
  have a: "dropWhile is_whitespace (l @ core @ r) = core @ r"
    using dropWhile_core [OF assms(1,3,4)] .
  have "list_all is_whitespace (rev r)" using assms(2) by (simp add: list_all_iff)
  moreover have "rev core \<noteq> []" using assms(3) by simp
  moreover have "\<not> is_whitespace (hd (rev core))" using assms(3,5) by (simp add: hd_rev)
  ultimately have "dropWhile is_whitespace (rev r @ rev core @ []) = rev core @ []"
    by (rule dropWhile_core)
  then show ?thesis by (simp add: trim_def a)
qed

text \<open>
  C9. On a conversation whose name is \<^verbatim>\<open>Chat \<close> followed by one or more digits, a send (with
  an API key set) of a message that has text other than white space renames the
  conversation, and its metadata entry, to the first 20 characters of the message without
  the white space around it: \<^verbatim>\<open>Chat 3\<close> and \<^verbatim>\<open>Hello there, how are you today?\<close> give
  \<^verbatim>\<open>Hello there, how are\<close>. A conversation whose name is not of that form, such as
  \<^verbatim>\<open>My custom chat\<close>, keeps its name through every sequence of sends, appends, message
  deletions, stops, stream events and renders.
\<close>

theorem default_name_rule:
  "(activeChat s = Some ac \<and> apiKey s \<noteq> []
      \<and> chat_name ac = ''Chat '' @ ds \<and> ds \<noteq> [] \<and> set ds \<subseteq> set ''0123456789''
      \<and> content = l @ core @ r \<and> list_all is_whitespace l \<and> list_all is_whitespace r
      \<and> core \<noteq> [] \<and> \<not> is_whitespace (hd core) \<and> \<not> is_whitespace (last core) \<longrightarrow>
      (\<exists>ac'. activeChat (fst (handleSendMessage now content aid uid s)) = Some ac'
             \<and> chat_name ac' = take 20 core)
      \<and> (\<forall>meta \<in> set (chatMetadatas (fst (handleSendMessage now content aid uid s))).
            meta_id meta = chat_id ac \<longrightarrow> meta_name meta = take 20 core))
   \<and> (activeChat t = Some bc
      \<and> \<not> (\<exists>ds. chat_name bc = ''Chat '' @ ds \<and> ds \<noteq> [] \<and> set ds \<subseteq> set ''0123456789'') \<longrightarrow>
      (\<exists>bc'. activeChat (fst (run_ops ops (t, st))) = Some bc' \<and> chat_name bc' = chat_name bc))"
proof (intro conjI impI)
  assume a: "activeChat s = Some ac \<and> apiKey s \<noteq> []
      \<and> chat_name ac = ''Chat '' @ ds \<and> ds \<noteq> [] \<and> set ds \<subseteq> set ''0123456789''
      \<and> content = l @ core @ r \<and> list_all is_whitespace l \<and> list_all is_whitespace r
      \<and> core \<noteq> [] \<and> \<not> is_whitespace (hd core) \<and> \<not> is_whitespace (last core)"
  then have d: "hasDefaultName ac" unfolding hasDefaultName_iff by blast
  from a have t: "trim content = core" using trim_core by blast
  from a have ne: "content \<noteq> []" by auto
  have nm: "updatedChatName content ac = take 20 core"
    using d t ne by (simp add: updatedChatName_def substring0_def)
  show "\<exists>ac'. activeChat (fst (handleSendMessage now content aid uid s)) = Some ac'
             \<and> chat_name ac' = take 20 core"
    using a nm by (simp add: send_active)
  show "\<forall>meta \<in> set (chatMetadatas (fst (handleSendMessage now content aid uid s))).
            meta_id meta = chat_id ac \<longrightarrow> meta_name meta = take 20 core"
    using a nm by (auto simp: send_metadata apply_updates_def)
next
  assume b: "activeChat t = Some bc
      \<and> \<not> (\<exists>ds. chat_name bc = ''Chat '' @ ds \<and> ds \<noteq> [] \<and> set ds \<subseteq> set ''0123456789'')"
  then have "\<not> hasDefaultName bc" unfolding hasDefaultName_iff by blast
  with b have "named (chat_name bc) (fst (t, st))" by (simp add: named_def)
  then have "named (chat_name bc) (fst (run_ops ops (t, st)))"
    by (rule run_ops_named)
  then show "\<exists>bc'. activeChat (fst (run_ops ops (t, st))) = Some bc' \<and> chat_name bc' = chat_name bc"
    by (auto simp: named_def)
qed

theorem default_name_rule_witness:
  "activeChat (demo_app ''Chat 3'' []) = Some (demo_chat ''Chat 3'' [])
   \<and> apiKey (demo_app ''Chat 3'' []) \<noteq> []
   \<and> chat_name (demo_chat ''Chat 3'' []) = ''Chat '' @ ''3''
   \<and> list_all is_whitespace ''  '' \<and> list_all is_whitespace [CHR 0x0A]
   \<and> \<not> is_whitespace (hd ''Hello there, how are you today?'')
   \<and> \<not> is_whitespace (last ''Hello there, how are you today?'')
   \<and> (\<exists>ac'. activeChat (fst (handleSendMessage 2 (''  '' @ ''Hello there, how are you today?'' @ [CHR 0x0A])
                 ''a1'' ''u1'' (demo_app ''Chat 3'' []))) = Some ac'
           \<and> chat_name ac' = ''Hello there, how are'')
   \<and> map meta_name (chatMetadatas (fst (handleSendMessage 2
                 (''  '' @ ''Hello there, how are you today?'' @ [CHR 0x0A]) ''a1'' ''u1''
                 (demo_app ''Chat 3'' [])))) = [''Hello there, how are'']
   \<and> activeChat (demo_app ''My custom chat'' demo_messages) = Some (demo_chat ''My custom chat'' demo_messages)
   \<and> chat_name (demo_chat ''My custom chat'' demo_messages) = ''My custom chat''
   \<and> (\<exists>bc'. activeChat (fst (run_ops [Send 2 ''Rename me?'' ''a1'' ''u1'', Stream (Delta (answer ''no'') ''r1''),
                                        Stream Tick, Stream Render, Stream Done, Stream Render,
                                        Append 3 ''again'' ''u2'']
                 (demo_app ''My custom chat'' demo_messages, init_stream))) = Some bc'
           \<and> chat_name bc' = ''My custom chat'')"
proof -
  have h1: "activeChat (demo_app ''Chat 3'' []) = Some (demo_chat ''Chat 3'' [])
            \<and> apiKey (demo_app ''Chat 3'' []) \<noteq> [] \<and> chat_name (demo_chat ''Chat 3'' []) = ''Chat '' @ ''3''"
    by (simp add: demo_app_def demo_chat_def)
  have h2: "list_all is_whitespace ''  '' \<and> list_all is_whitespace [CHR 0x0A]
            \<and> \<not> is_whitespace (hd ''Hello there, how are you today?'')
            \<and> \<not> is_whitespace (last ''Hello there, how are you today?'')"
    by (simp add: is_whitespace_def)
  have h3: "activeChat (demo_app ''My custom chat'' demo_messages) = Some (demo_chat ''My custom chat'' demo_messages)
            \<and> chat_name (demo_chat ''My custom chat'' demo_messages) = ''My custom chat''"
    by (simp add: demo_app_def demo_chat_def)
  have h4: "\<not> (\<exists>ds. chat_name (demo_chat ''My custom chat'' demo_messages) = ''Chat '' @ ds \<and> ds \<noteq> []
                    \<and> set ds \<subseteq> set ''0123456789'')"
    by (simp add: demo_chat_def)
  note r = default_name_rule [where s = "demo_app ''Chat 3'' []" and ac = "demo_chat ''Chat 3'' []"
      and ds = "''3''" and content = "''  '' @ ''Hello there, how are you today?'' @ [CHR 0x0A]"
      and l = "''  ''" and core = "''Hello there, how are you today?''" and r = "[CHR 0x0A]"
      and now = 2 and aid = "''a1''" and uid = "''u1''"
      and t = "demo_app ''My custom chat'' demo_messages" and bc = "demo_chat ''My custom chat'' demo_messages"
      and ops = "[Send 2 ''Rename me?'' ''a1'' ''u1'', Stream (Delta (answer ''no'') ''r1''),
                  Stream Tick, Stream Render, Stream Done, Stream Render, Append 3 ''again'' ''u2'']"
      and st = init_stream]
  have m: "map meta_name (chatMetadatas (fst (handleSendMessage 2
                 (''  '' @ ''Hello there, how are you today?'' @ [CHR 0x0A]) ''a1'' ''u1''
                 (demo_app ''Chat 3'' [])))) = [''Hello there, how are'']"
    by (simp add: model_defs)
  from r h1 h2 h3 h4 m show ?thesis by simp
qed

section \<open>The message count of the metadata entry\<close>

text \<open>The metadata entry of the active conversation counts its messages.\<close>

lemma send_counts:
  assumes "activeChat s = Some ac" and "apiKey s \<noteq> []"
    and "activeChat (fst (handleSendMessage now content aid uid s)) = Some ac'"
    and "meta \<in> set (chatMetadatas (fst (handleSendMessage now content aid uid s)))"
    and "meta_id meta = chat_id ac'"
  shows "messageCount meta = length (messages ac')"
  using assms by (auto simp: send_active send_metadata apply_updates_def)

lemma append_counts:
  assumes "activeChat (handleAppendMessage now content nid s) = Some ac'"
    and "meta \<in> set (chatMetadatas (handleAppendMessage now content nid s))"
    and "meta_id meta = chat_id ac'"
  shows "messageCount meta = length (messages ac')"
  using assms
  by (cases "activeChat s")
     (auto simp: handleAppendMessage_def Let_def updateChatMetadata_def apply_updates_def)

lemma delete_counts:
  assumes "activeChat (handleDeleteMessage now messageId s) = Some ac'"
    and "meta \<in> set (chatMetadatas (handleDeleteMessage now messageId s))"
    and "meta_id meta = chat_id ac'"
  shows "messageCount meta = length (messages ac')"
  using assms
  by (cases "activeChat s")
     (auto simp: handleDeleteMessage_def Let_def updateChatMetadata_def apply_updates_def)

text \<open>
  C4. The reasoning message that a reasoning delta inserts is not counted: after a send of
  \<^verbatim>\<open>hi\<close> on an empty conversation, one reasoning delta whose insertion React renders, and
  the end of the stream, the conversation has three messages and its metadata entry says
  two.
\<close>

theorem reasoning_message_not_counted:
  "map messageCount (chatMetadatas (fst (run_ops
       [Send 2 ''hi'' ''a1'' ''u1'', Stream (Delta (thought ''x'') ''r1''), Stream Render,
        Stream Done, Stream Render]
       (demo_app ''Chat 1'' [], init_stream)))) = [2]
   \<and> map_option (\<lambda>c. length (messages c)) (activeChat (fst (run_ops
       [Send 2 ''hi'' ''a1'' ''u1'', Stream (Delta (thought ''x'') ''r1''), Stream Render,
        Stream Done, Stream Render]
       (demo_app ''Chat 1'' [], init_stream)))) = Some 3"
  by (simp add: model_defs)

section \<open>The end of the stream\<close>

text \<open>Whatever is pending when the stream ends, the last flush included, is dropped.\<close>

lemma final_flush_dropped:
  assumes "reading (snd p)" and "\<not> aborted (snd p)"
  shows "activeChat (fst (stream_step Render (stream_step Done p))) = activeChat (fst p)"
proof -
  have r: "streamingMessageRef (fst (stream_step Done p)) = None"
    and a: "activeChat (fst (stream_step Done p)) = activeChat (fst p)"
    using assms by (simp_all add: Let_def finally_block_def flushUpdate_app)
  from render_null_ref [OF r] a show ?thesis by simp
qed

text \<open>
  C1. The claim fails on the code. After a send of \<^verbatim>\<open>hi\<close>, the answer delta \<^verbatim>\<open>Hel\<close> is
  flushed by the timer and rendered; then a reasoning delta \<^verbatim>\<open>why\<close> and the answer delta
  \<^verbatim>\<open>lo\<close> arrive and the stream ends before React renders again. The insertion of the
  reasoning message and the last flush run after the \<^verbatim>\<open>finally\<close> block has cleared the ref
  and return the conversation unchanged: the assistant message reads \<^verbatim>\<open>Hel\<close>, not
  \<^verbatim>\<open>Hello\<close>, and there is no reasoning message. An update being pending, React cannot run
  the last flush at the call.
\<close>

theorem last_deltas_not_applied:
  "map_option (\<lambda>c. map msg_content (messages c)) (activeChat (fst (run_ops
       [Send 2 ''hi'' ''a1'' ''u1'', Stream (Delta (answer ''Hel'') ''r1''), Stream Tick, Stream Render,
        Stream (Delta (thought ''why'') ''r2''), Stream (Delta (answer ''lo'') ''r3''),
        Stream Done, Stream Render]
       (demo_app ''Chat 1'' [], init_stream)))) = Some [Text ''hi'', Text ''Hel'']
   \<and> map_option (\<lambda>c. map msg_content (messages c)) (activeChat (fst (run_ops
       [Send 2 ''hi'' ''a1'' ''u1'', Stream (Delta (answer ''Hel'') ''r1''), Stream Tick, Stream Render,
        Stream (Delta (thought ''why'') ''r2''), Stream (Delta (answer ''lo'') ''r3''),
        Stream DoneEager, Stream Render]
       (demo_app ''Chat 1'' [], init_stream)))) = Some [Text ''hi'', Text ''Hel'']
   \<and> map_option (\<lambda>c. filter is_reasoning_kind (messages c)) (activeChat (fst (run_ops
       [Send 2 ''hi'' ''a1'' ''u1'', Stream (Delta (answer ''Hel'') ''r1''), Stream Tick, Stream Render,
        Stream (Delta (thought ''why'') ''r2''), Stream (Delta (answer ''lo'') ''r3''),
        Stream Done, Stream Render]
       (demo_app ''Chat 1'' [], init_stream)))) = Some []"
  by (simp add: model_defs)

text \<open>
  C3. The claim fails on the code. After a send of \<^verbatim>\<open>hi\<close>, one delta with the answer text
  \<^verbatim>\<open>end\<close> and the reasoning text \<^verbatim>\<open>why\<close> arrives and the stream ends at once.
  \<^verbatim>\<open>flushUpdate()\<close> is called and empties the buffers, but its function runs after the
  \<^verbatim>\<open>finally\<close> block has cleared the ref: the assistant message stays empty and no reasoning
  message appears, whether or not React would run a function at the call when nothing is
  pending.
\<close>

theorem trailing_text_lost:
  "map_option (\<lambda>c. map msg_content (messages c)) (activeChat (fst (run_ops
       [Send 2 ''hi'' ''a1'' ''u1'', Stream (Delta \<lparr>d_content = Some ''end'', d_reasoning = Some ''why''\<rparr> ''r1''),
        Stream Done, Stream Render]
       (demo_app ''Chat 1'' [], init_stream)))) = Some [Text ''hi'', Text []]
   \<and> map_option (\<lambda>c. map msg_content (messages c)) (activeChat (fst (run_ops
       [Send 2 ''hi'' ''a1'' ''u1'', Stream (Delta \<lparr>d_content = Some ''end'', d_reasoning = Some ''why''\<rparr> ''r1''),
        Stream DoneEager, Stream Render]
       (demo_app ''Chat 1'' [], init_stream)))) = Some [Text ''hi'', Text []]
   \<and> accumulatedContent (snd (run_ops
       [Send 2 ''hi'' ''a1'' ''u1'', Stream (Delta \<lparr>d_content = Some ''end'', d_reasoning = Some ''why''\<rparr> ''r1''),
        Stream Done, Stream Render]
       (demo_app ''Chat 1'' [], init_stream))) = []"
  by (simp add: model_defs)

text \<open>
  With nothing pending, the last flush lands when React runs its function at the call, and
  the text flushed by the timer lands when React renders before the stream ends.
\<close>

lemma flush_lands_when_run_in_time:
  "map_option (\<lambda>c. map msg_content (messages c)) (activeChat (fst (run_ops
       [Send 2 ''hi'' ''a1'' ''u1'', Stream (Delta (answer ''end'') ''r1''), Stream DoneEager, Stream Render]
       (demo_app ''Chat 1'' [], init_stream)))) = Some [Text ''hi'', Text ''end'']
   \<and> map_option (\<lambda>c. map msg_content (messages c)) (activeChat (fst (run_ops
       [Send 2 ''hi'' ''a1'' ''u1'', Stream (Delta (answer ''end'') ''r1''), Stream Tick, Stream Render,
        Stream Done, Stream Render]
       (demo_app ''Chat 1'' [], init_stream)))) = Some [Text ''hi'', Text ''end'']"
  by (simp add: model_defs)

section \<open>Cancelling a turn\<close>

lemma quiet_step:
  assumes "pendingUpdates (fst p) = []" and "accumulatedContent (snd p) = []"
    and "accumulatedReasoning (snd p) = []" and "\<not> is_network ev"
  shows "fst (stream_step ev p) = fst p
       \<and> accumulatedContent (snd (stream_step ev p)) = []
       \<and> accumulatedReasoning (snd (stream_step ev p)) = []
       \<and> reading (snd (stream_step ev p)) = reading (snd p)
       \<and> aborted (snd (stream_step ev p)) = aborted (snd p)"
  using assms
  by (cases ev) (simp_all add: is_network_def flushUpdate_def Let_def render_def)

lemma quiet_run:
  assumes "list_all (\<lambda>e. \<not> is_network e) evs"
    and "pendingUpdates (fst p) = []" and "accumulatedContent (snd p) = []"
    and "accumulatedReasoning (snd p) = []"
  shows "fst (run_stream evs p) = fst p
       \<and> accumulatedContent (snd (run_stream evs p)) = []
       \<and> accumulatedReasoning (snd (run_stream evs p)) = []
       \<and> reading (snd (run_stream evs p)) = reading (snd p)
       \<and> aborted (snd (run_stream evs p)) = aborted (snd p)"
  using assms
proof (induction evs arbitrary: p)
  case Nil
  then show ?case by (simp add: run_stream_def)
next
  case (Cons ev evs)
  from Cons.prems have ne: "\<not> is_network ev" and rest: "list_all (\<lambda>e. \<not> is_network e) evs" by simp_all
  from quiet_step [OF Cons.prems(2,3,4) ne]
  have q: "fst (stream_step ev p) = fst p" "accumulatedContent (snd (stream_step ev p)) = []"
    "accumulatedReasoning (snd (stream_step ev p)) = []"
    "reading (snd (stream_step ev p)) = reading (snd p)"
    "aborted (snd (stream_step ev p)) = aborted (snd p)" by simp_all
  from Cons.IH [OF rest, of "stream_step ev p"] q Cons.prems(2)
  show ?case by (simp add: run_stream_def)
qed

lemma aborted_read:
  "is_network ev \<Longrightarrow> reading (snd p) \<Longrightarrow> aborted (snd p) \<Longrightarrow>
   stream_step ev p = exit_with ''AbortError'' p"
  by (cases ev) (simp_all add: is_network_def)

text \<open>
  C6. A turn is in flight and everything received so far has been applied: nothing is
  pending with React and the buffers are empty. The user presses Stop, which clears the
  loading and streaming flags and aborts the turn's signal; whatever the network would
  have delivered next, the pending read rejects with an \<^verbatim>\<open>AbortError\<close>; timer firings and
  renders may come before and after. Then the active conversation is what it was (with
  the deltas \<^verbatim>\<open>Hel\<close> and \<^verbatim>\<open>lo\<close> applied, the assistant message still reads \<^verbatim>\<open>Hello\<close>), no
  alert has been added, the console has the abort notice and not the failure notice, and
  the flags, the controller, the ref and the loop are cleared.
\<close>

theorem cancel_keeps_applied_text:
  assumes "abortController s" and "reading st"
    and "pendingUpdates s = []" and "accumulatedContent st = []" and "accumulatedReasoning st = []"
    and "is_network ev"
    and "list_all (\<lambda>e. \<not> is_network e) before" and "list_all (\<lambda>e. \<not> is_network e) after"
  shows "(isLoading (fst (handleStopMessage (s, st))), isStreaming (fst (handleStopMessage (s, st))),
          abortController (fst (handleStopMessage (s, st))), aborted (snd (handleStopMessage (s, st))))
           = (False, False, False, True)
       \<and> activeChat (fst (run_stream after (stream_step ev (run_stream before (handleStopMessage (s, st))))))
           = activeChat s
       \<and> alerts (fst (run_stream after (stream_step ev (run_stream before (handleStopMessage (s, st))))))
           = alerts s
       \<and> console (fst (run_stream after (stream_step ev (run_stream before (handleStopMessage (s, st))))))
           = console s @ [''Request was aborted'']
       \<and> (isLoading (fst (run_stream after (stream_step ev (run_stream before (handleStopMessage (s, st)))))),
          isStreaming (fst (run_stream after (stream_step ev (run_stream before (handleStopMessage (s, st)))))),
          abortController (fst (run_stream after (stream_step ev (run_stream before (handleStopMessage (s, st)))))),
          streamingMessageRef (fst (run_stream after (stream_step ev (run_stream before (handleStopMessage (s, st)))))),
          reading (snd (run_stream after (stream_step ev (run_stream before (handleStopMessage (s, st)))))))
           = (False, False, False, None, False)"
proof -
  let ?p0 = "handleStopMessage (s, st)"
  let ?s0 = "s\<lparr>abortController := False, isStreaming := False, isLoading := False\<rparr>"
  have p0: "?p0 = (?s0, st\<lparr>aborted := True\<rparr>)"
    using assms(1) by (simp add: handleStopMessage_def)
  let ?p1 = "run_stream before ?p0"
  from quiet_run [OF assms(7), of ?p0] assms(2,3,4,5)
  have p1: "fst ?p1 = ?s0" "accumulatedContent (snd ?p1) = []" "accumulatedReasoning (snd ?p1) = []"
    "reading (snd ?p1)" "aborted (snd ?p1)"
    by (simp_all add: p0)
  let ?p2 = "stream_step ev ?p1"
  have p2: "?p2 = exit_with ''AbortError'' ?p1"
    using aborted_read [OF assms(6) p1(4,5)] .
  have s2: "fst ?p2 = finally_block (catch_error ''AbortError'' ?s0)"
    and b2: "accumulatedContent (snd ?p2) = []" "accumulatedReasoning (snd ?p2) = []" "\<not> reading (snd ?p2)"
    using p1 by (simp_all add: p2 exit_with_def)
  have q2: "pendingUpdates (fst ?p2) = []"
    using assms(3) by (simp add: s2 finally_block_def catch_error_def)
  from quiet_run [OF assms(8) q2 b2(1,2)] b2(3)
  have p3: "fst (run_stream after ?p2) = finally_block (catch_error ''AbortError'' ?s0)"
    "\<not> reading (snd (run_stream after ?p2))"
    by (simp_all add: s2)
  show ?thesis
    unfolding p3(1) using p3(2) by (simp add: p0 finally_block_def catch_error_def)
qed

theorem cancel_keeps_applied_text_witness:
  "abortController (fst demo_turn) \<and> reading (snd demo_turn)
   \<and> pendingUpdates (fst demo_turn) = []
   \<and> accumulatedContent (snd demo_turn) = [] \<and> accumulatedReasoning (snd demo_turn) = []
   \<and> is_network Done
   \<and> map_option (\<lambda>c. map msg_content (messages c)) (activeChat (fst demo_turn))
       = Some [Text ''Say hello'', Text ''Hello'']
   \<and> map_option (\<lambda>c. map msg_content (messages c))
       (activeChat (fst (run_stream [Tick, Render] (stream_step Done (run_stream [Render]
          (handleStopMessage (fst demo_turn, snd demo_turn)))))))
       = Some [Text ''Say hello'', Text ''Hello'']
   \<and> alerts (fst (run_stream [Tick, Render] (stream_step Done (run_stream [Render]
          (handleStopMessage (fst demo_turn, snd demo_turn)))))) = []
   \<and> console (fst (run_stream [Tick, Render] (stream_step Done (run_stream [Render]
          (handleStopMessage (fst demo_turn, snd demo_turn)))))) = [''Request was aborted'']"
proof -
  have h1: "abortController (fst demo_turn)" and h2: "reading (snd demo_turn)"
    and h3: "pendingUpdates (fst demo_turn) = []"
    and h4: "accumulatedContent (snd demo_turn) = []" and h5: "accumulatedReasoning (snd demo_turn) = []"
    and c: "map_option (\<lambda>c. map msg_content (messages c)) (activeChat (fst demo_turn))
             = Some [Text ''Say hello'', Text ''Hello'']"
    and a: "alerts (fst demo_turn) = []" and k: "console (fst demo_turn) = []"
    by (simp_all add: demo_turn_def model_defs)
  have h6: "is_network Done" by (simp add: is_network_def)
  have h7: "list_all (\<lambda>e. \<not> is_network e) [Render]" and h8: "list_all (\<lambda>e. \<not> is_network e) [Tick, Render]"
    by (simp_all add: is_network_def)
  from cancel_keeps_applied_text [OF h1 h2 h3 h4 h5 h6 h7 h8] c a k
  have r: "map_option (\<lambda>c. map msg_content (messages c))
       (activeChat (fst (run_stream [Tick, Render] (stream_step Done (run_stream [Render]
          (handleStopMessage (fst demo_turn, snd demo_turn)))))))
       = Some [Text ''Say hello'', Text ''Hello'']"
    and ra: "alerts (fst (run_stream [Tick, Render] (stream_step Done (run_stream [Render]
          (handleStopMessage (fst demo_turn, snd demo_turn)))))) = []"
    and rk: "console (fst (run_stream [Tick, Render] (stream_step Done (run_stream [Render]
          (handleStopMessage (fst demo_turn, snd demo_turn)))))) = [''Request was aborted'']"
    by simp_all
  show ?thesis
    by (intro conjI) (rule h1 h2 h3 h4 h5 h6 c r ra rk)+
qed

text \<open>
  A turn ended by an error that is not an abort raises the failure alert; the text
  already in the assistant message stays as well.
\<close>

lemma failure_raises_alert:
  "map_option (\<lambda>c. map msg_content (messages c))
       (activeChat (fst (run_stream [Reject ''TypeError'', Render] demo_turn)))
     = Some [Text ''Say hello'', Text ''Hello'']
   \<and> alerts (fst (run_stream [Reject ''TypeError'', Render] demo_turn))
     = [''Failed to send message. Please check your API key and try again.'']"
  by (simp add: demo_turn_def model_defs)

section \<open>The identity check of the stream's updates\<close>

lemma foreign_run_update:
  "foreign_stream s \<Longrightarrow> run_update (streamingMessageRef s) upd (activeChat s) = activeChat s"
  by (cases upd)
     (auto simp: foreign_stream_def flush_updater_def reasoning_updater_def split: option.splits)

lemma foreign_run_updates:
  assumes "foreign_stream s"
  shows "foldl (\<lambda>prev upd. run_update (streamingMessageRef s) upd prev) (activeChat s) q = activeChat s"
  using foreign_run_update [OF assms] by (induction q) simp_all

lemma foreign_render: "foreign_stream s \<Longrightarrow> activeChat (render s) = activeChat s"
  by (simp add: render_def foreign_run_updates)

lemma render_ref [simp]: "streamingMessageRef (render s) = streamingMessageRef s"
  by (simp add: render_def)

lemma foreign_cong:
  "activeChat s' = activeChat s \<Longrightarrow>
   streamingMessageRef s' = streamingMessageRef s \<or> streamingMessageRef s' = None \<Longrightarrow>
   foreign_stream s \<Longrightarrow> foreign_stream s'"
  by (auto simp: foreign_stream_def split: option.splits)

lemma foreign_network_step:
  assumes "foreign_stream (fst p)"
  shows "activeChat (fst (network_step ev p)) = activeChat (fst p)
       \<and> (streamingMessageRef (fst (network_step ev p)) = streamingMessageRef (fst p)
          \<or> streamingMessageRef (fst (network_step ev p)) = None)"
proof (cases ev)
  case DoneEager
  have f: "foreign_stream (fst (flushUpdate p))"
    using assms by (auto intro: foreign_cong simp: flushUpdate_app)
  from foreign_render [OF f] DoneEager show ?thesis
    by (simp add: Let_def finally_block_def flushUpdate_app)
qed (simp_all add: Let_def finally_block_def catch_error_def exit_with_def flushUpdate_app handle_delta_app)

lemma foreign_step:
  assumes "foreign_stream (fst p)"
  shows "activeChat (fst (stream_step ev p)) = activeChat (fst p) \<and> foreign_stream (fst (stream_step ev p))"
proof -
  have a: "activeChat (fst (stream_step ev p)) = activeChat (fst p)"
    and b: "streamingMessageRef (fst (stream_step ev p)) = streamingMessageRef (fst p)
          \<or> streamingMessageRef (fst (stream_step ev p)) = None"
    using foreign_network_step [OF assms, of ev] foreign_render [OF assms]
    by (cases ev; simp add: Let_def finally_block_def catch_error_def exit_with_def flushUpdate_app)+
  from foreign_cong [OF a b assms] a show ?thesis by simp
qed

lemma foreign_run:
  "foreign_stream (fst p) \<Longrightarrow>
   activeChat (fst (run_stream evs p)) = activeChat (fst p) \<and> foreign_stream (fst (run_stream evs p))"
proof (induction evs arbitrary: p)
  case Nil
  then show ?case by (simp add: run_stream_def)
next
  case (Cons ev evs)
  from foreign_step [OF Cons.prems, of ev] Cons.IH [of "stream_step ev p"]
  show ?case by (simp add: run_stream_def)
qed

text \<open>
  C5. A step of the stream or of React changes the active conversation only in a state
  where the ref is set and the active conversation's id is the conversation id the ref
  records for the turn in flight. When the ref is null or records another conversation
  than the active one (the user switched after the turn began), no sequence of deltas,
  timer firings, renders, stream end or errors changes the active conversation.
\<close>

theorem stream_updates_guarded:
  "(activeChat (fst (stream_step ev (s, st))) \<noteq> activeChat s \<longrightarrow>
      (\<exists>r c. streamingMessageRef s = Some r \<and> activeChat s = Some c \<and> chat_id c = ref_chatId r))
   \<and> (foreign_stream t \<longrightarrow> activeChat (fst (run_stream evs (t, st'))) = activeChat t)"
proof (intro conjI impI)
  assume ch: "activeChat (fst (stream_step ev (s, st))) \<noteq> activeChat s"
  have "\<not> foreign_stream s"
  proof
    assume "foreign_stream s"
    then have "foreign_stream (fst (s, st))" by simp
    from foreign_step [OF this, of ev] ch show False by simp
  qed
  then show "\<exists>r c. streamingMessageRef s = Some r \<and> activeChat s = Some c \<and> chat_id c = ref_chatId r"
    by (auto simp: foreign_stream_def split: option.splits)
next
  assume "foreign_stream t"
  then have "foreign_stream (fst (t, st'))" by simp
  from foreign_run [OF this, of evs] show "activeChat (fst (run_stream evs (t, st'))) = activeChat t"
    by simp
qed

theorem stream_updates_guarded_witness:
  "activeChat (fst (stream_step Render
       (stream_step (Delta (thought ''x'') ''r1'')
          (fst (handleSendMessage 2 ''hi'' ''a1'' ''u1'' (demo_app ''Chat 1'' [])), init_stream))))
     \<noteq> activeChat (fst (stream_step (Delta (thought ''x'') ''r1'')
          (fst (handleSendMessage 2 ''hi'' ''a1'' ''u1'' (demo_app ''Chat 1'' [])), init_stream)))
   \<and> (\<exists>r c. streamingMessageRef (fst (stream_step (Delta (thought ''x'') ''r1'')
          (fst (handleSendMessage 2 ''hi'' ''a1'' ''u1'' (demo_app ''Chat 1'' [])), init_stream))) = Some r
          \<and> activeChat (fst (stream_step (Delta (thought ''x'') ''r1'')
          (fst (handleSendMessage 2 ''hi'' ''a1'' ''u1'' (demo_app ''Chat 1'' [])), init_stream))) = Some c
          \<and> chat_id c = ref_chatId r)
   \<and> foreign_stream ((fst (handleSendMessage 2 ''hi'' ''a1'' ''u1'' (demo_app ''Chat 1'' [])))
         \<lparr>activeChat := Some demo_other, activeChatId := Some ''c2''\<rparr>)
   \<and> activeChat (fst (run_stream [Delta (thought ''x'') ''r1'', Render, Delta (answer ''y'') ''r2'', Tick,
                                  Render, DoneEager, Render]
         ((fst (handleSendMessage 2 ''hi'' ''a1'' ''u1'' (demo_app ''Chat 1'' [])))
            \<lparr>activeChat := Some demo_other, activeChatId := Some ''c2''\<rparr>, init_stream)))
       = Some demo_other"
proof -
  let ?s0 = "fst (handleSendMessage 2 ''hi'' ''a1'' ''u1'' (demo_app ''Chat 1'' []))"
  let ?p = "stream_step (Delta (thought ''x'') ''r1'') (?s0, init_stream)"
  let ?t = "?s0\<lparr>activeChat := Some demo_other, activeChatId := Some ''c2''\<rparr>"
  have h1: "activeChat (fst (stream_step Render ?p)) \<noteq> activeChat (fst ?p)"
    by (simp add: model_defs)
  have h2: "foreign_stream ?t"
    by (simp add: foreign_stream_def demo_other_def model_defs)
  from stream_updates_guarded [of Render "fst ?p" "snd ?p" ?t
      "[Delta (thought ''x'') ''r1'', Render, Delta (answer ''y'') ''r2'', Tick, Render, DoneEager, Render]"
      init_stream] h1 h2
  show ?thesis by simp
qed

section \<open>Coalescing of saves\<close>

lemma run_saves_append: "run_saves (xs @ ys) p = run_saves ys (run_saves xs p)"
  by (simp add: run_saves_def)

lemma run_schedule_all:
  "run_saves (schedule_all ops) (d, log) =
     (d\<lparr>pendingSaves := pending_after (pendingSaves d) ops,
        timerPending := (timerPending d \<or> ops \<noteq> [])\<rparr>, log)"
proof (induction ops arbitrary: d)
  case Nil
  then show ?case by (simp add: run_saves_def schedule_all_def pending_after_def)
next
  case (Cons p ops)
  have "run_saves (schedule_all (p # ops)) (d, log)
        = run_saves (schedule_all ops) (debouncedSaveChat (fst p) (snd p) d, log)"
    by (simp add: run_saves_def schedule_all_def)
  also have "\<dots> = (d\<lparr>pendingSaves := pending_after (pendingSaves d) (p # ops),
                      timerPending := (timerPending d \<or> p # ops \<noteq> [])\<rparr>, log)"
    by (simp add: Cons.IH debouncedSaveChat_def pending_after_def)
  finally show ?case .
qed

lemma pending_after_distinct:
  "distinct (map fst ps) \<Longrightarrow> distinct (map fst (pending_after ps ops))"
  unfolding pending_after_def
  by (induction ops arbitrary: ps) (simp_all add: distinct_update)

lemma pending_after_snoc:
  "pending_after ps (ops @ [p]) = AList.update (fst p) (snd p) (pending_after ps ops)"
  by (simp add: pending_after_def)

lemma pending_after_latest:
  "map snd (filter (\<lambda>p. fst p = cid) ops) = snaps \<Longrightarrow> snaps \<noteq> [] \<Longrightarrow>
   map_of (pending_after ps ops) cid = Some (last snaps)"
proof (induction ops arbitrary: snaps rule: rev_induct)
  case Nil
  then show ?case by simp
next
  case (snoc p ops)
  show ?case
  proof (cases "fst p = cid")
    case True
    with snoc.prems show ?thesis
      by (auto simp: pending_after_snoc update_conv')
  next
    case False
    with snoc.prems have "map snd (filter (\<lambda>p. fst p = cid) ops) = snaps" by simp
    from snoc.IH [OF this snoc.prems(2)] False show ?thesis
      by (simp add: pending_after_snoc update_conv')
  qed
qed

lemma filter_key_single:
  "distinct (map fst al) \<Longrightarrow> map_of al k = Some v \<Longrightarrow> filter (\<lambda>p. fst p = k) al = [(k, v)]"
proof (induction al)
  case Nil
  then show ?case by simp
next
  case (Cons a al)
  show ?case
  proof (cases "fst a = k")
    case True
    with Cons.prems have "a = (k, v)" by (cases a) simp
    moreover from Cons.prems True have "filter (\<lambda>p. fst p = k) al = []"
      by (force simp: filter_empty_conv image_iff)
    ultimately show ?thesis by simp
  next
    case False
    with Cons show ?thesis by (cases a) auto
  qed
qed

lemma chat_key_inj [simp]: "(chat_key a = chat_key b) = (a = b)"
  by (simp add: chat_key_def)

lemma executeSave_writes_for:
  "filter (\<lambda>w. fst w = chat_key cid) (fst (executeSave d))
     = map (\<lambda>p. (chat_key (fst p), snd p)) (filter (\<lambda>p. fst p = cid) (pendingSaves d))"
  by (induction "pendingSaves d" arbitrary: d) (auto simp: executeSave_def filter_map comp_def case_prod_unfold)

text \<open>
  C7. Calls of the debounced save for any conversations follow one another with no firing
  of the timeout in between, \<open>snaps\<close> being the snapshots given for the id \<open>cid\<close>, at
  least one. Nothing is written before the timeout fires; when it fires, exactly one
  \<^verbatim>\<open>setItem\<close> call is made for the key of \<open>cid\<close>, with the last of these snapshots, and the
  map of pending saves is empty afterwards.
\<close>

theorem coalescing_latest_wins:
  assumes "map snd (filter (\<lambda>p. fst p = cid) ops) = snaps" and "snaps \<noteq> []"
  shows "filter (\<lambda>w. fst w = chat_key cid)
           (snd (run_saves (schedule_all ops @ [TimerFires]) (createDebouncedSave, [])))
         = [(chat_key cid, last snaps)]
       \<and> pendingSaves (fst (run_saves (schedule_all ops @ [TimerFires]) (createDebouncedSave, []))) = []
       \<and> snd (run_saves (schedule_all ops) (createDebouncedSave, [])) = []"
proof -
  let ?d = "createDebouncedSave\<lparr>pendingSaves := pending_after [] ops, timerPending := True\<rparr>"
  from assms have ne: "ops \<noteq> []" by auto
  have s: "run_saves (schedule_all ops) (createDebouncedSave, []) = (?d, [])"
    using ne by (simp add: run_schedule_all createDebouncedSave_def)
  have f: "run_saves (schedule_all ops @ [TimerFires]) (createDebouncedSave, [])
           = (snd (executeSave ?d), fst (executeSave ?d))"
    by (simp add: run_saves_append s) (simp add: run_saves_def)
  have d: "distinct (map fst (pending_after [] ops))" by (simp add: pending_after_distinct)
  from filter_key_single [OF d pending_after_latest [OF assms]]
  have "filter (\<lambda>p. fst p = cid) (pendingSaves ?d) = [(cid, last snaps)]" by simp
  then have "filter (\<lambda>w. fst w = chat_key cid) (fst (executeSave ?d)) = [(chat_key cid, last snaps)]"
    by (simp add: executeSave_writes_for)
  then show ?thesis by (simp add: f s) (simp add: executeSave_def)
qed

theorem coalescing_latest_wins_witness:
  "map snd (filter (\<lambda>p. fst p = ''c1'')
        [(''c1'', demo_chat ''v1'' []), (''c2'', demo_other), (''c1'', demo_chat ''v2'' []),
         (''c1'', demo_chat ''v3'' [])])
     = [demo_chat ''v1'' [], demo_chat ''v2'' [], demo_chat ''v3'' []]
   \<and> filter (\<lambda>w. fst w = chat_key ''c1'')
        (snd (run_saves (schedule_all [(''c1'', demo_chat ''v1'' []), (''c2'', demo_other),
                (''c1'', demo_chat ''v2'' []), (''c1'', demo_chat ''v3'' [])] @ [TimerFires])
           (createDebouncedSave, [])))
     = [(chat_key ''c1'', demo_chat ''v3'' [])]"
proof -
  have h: "map snd (filter (\<lambda>p. fst p = ''c1'')
        [(''c1'', demo_chat ''v1'' []), (''c2'', demo_other), (''c1'', demo_chat ''v2'' []),
         (''c1'', demo_chat ''v3'' [])])
     = [demo_chat ''v1'' [], demo_chat ''v2'' [], demo_chat ''v3'' []]"
    by simp
  have n: "[demo_chat ''v1'' [], demo_chat ''v2'' [], demo_chat ''v3'' []] \<noteq> []" by simp
  from coalescing_latest_wins [OF h n] h show ?thesis by simp
qed

section \<open>Chunk boundaries\<close>

lemma split_lines_nonempty [simp]: "split_lines s \<noteq> []"
  by (induction s) (auto split: list.splits)

lemma split_lines_at_newline:
  "split_lines (a @ CHR 0x0A # b) = split_lines a @ split_lines b"
proof (induction a)
  case Nil
  then show ?case by simp
next
  case (Cons c a)
  show ?case
  proof (cases "c = CHR 0x0A")
    case True
    with Cons show ?thesis by simp
  next
    case False
    obtain l ls where "split_lines a = l # ls"
      using split_lines_nonempty [of a] by (cases "split_lines a") auto
    with Cons False show ?thesis by simp
  qed
qed

lemma sse_payloads_empty [simp]: "sse_payloads [] = []"
  by (simp add: sse_payloads_def startsWith_def)

lemma sse_payloads_at_newline:
  "sse_payloads (a @ CHR 0x0A # b) = sse_payloads a @ sse_payloads b"
  by (simp add: sse_payloads_def split_lines_at_newline)

lemma sse_payloads_aligned:
  assumes "line_aligned c"
  shows "sse_payloads (c @ rest) = sse_payloads c @ sse_payloads rest"
proof (cases "c = []")
  case True
  then show ?thesis by simp
next
  case False
  with assms have "c = butlast c @ [CHR 0x0A]"
    by (metis append_butlast_last_id line_aligned_def)
  then obtain a where c: "c = a @ [CHR 0x0A]" ..
  have "sse_payloads (c @ rest) = sse_payloads a @ sse_payloads rest"
    using sse_payloads_at_newline [of a rest] by (simp add: c)
  moreover have "sse_payloads c = sse_payloads a"
    using sse_payloads_at_newline [of a "[]"] by (simp add: c)
  ultimately show ?thesis by simp
qed

lemma stream_payloads_aligned:
  "list_all line_aligned chunks \<Longrightarrow> stream_payloads chunks = sse_payloads (concat chunks)"
  by (induction chunks) (simp_all add: stream_payloads_def sse_payloads_aligned)

lemma map_filter_append: "List.map_filter f (xs @ ys) = List.map_filter f xs @ List.map_filter f ys"
  by (simp add: List.map_filter_def)

lemma stream_deltas_payloads:
  "stream_deltas parse chunks = List.map_filter parse (stream_payloads chunks)"
  by (induction chunks) (simp_all add: stream_deltas_def stream_payloads_def chunk_deltas_def
      map_filter_append List.map_filter_simps)

text \<open>
  C2, as amended. Each chunk read is split at line feeds and decoded on its own, its
  \<^verbatim>\<open>data: \<close> lines in the order met and the chunks in the order read; nothing is kept
  from one read to the next. So when every chunk read ends at a line boundary, the
  payloads handed to the decoder, and the deltas decoded from them, are those of the lines
  of the whole byte stream in wire order.
\<close>

theorem chunks_decoded_in_order:
  assumes "list_all line_aligned chunks"
  shows "stream_payloads chunks = sse_payloads (concat chunks)
       \<and> stream_deltas parse chunks = chunk_deltas parse (concat chunks)"
  using stream_payloads_aligned [OF assms]
  by (simp add: stream_deltas_payloads chunk_deltas_def)

theorem chunks_decoded_in_order_witness:
  "list_all line_aligned [''data: a'' @ [CHR 0x0A] @ ''data: [DONE]'' @ [CHR 0x0A], ''data: b'' @ [CHR 0x0A]]
   \<and> stream_payloads [''data: a'' @ [CHR 0x0A] @ ''data: [DONE]'' @ [CHR 0x0A], ''data: b'' @ [CHR 0x0A]]
       = [''a'', ''b'']
   \<and> stream_deltas (\<lambda>t. Some (answer t))
         [''data: a'' @ [CHR 0x0A] @ ''data: [DONE]'' @ [CHR 0x0A], ''data: b'' @ [CHR 0x0A]]
       = [answer ''a'', answer ''b'']"
proof -
  have h: "list_all line_aligned [''data: a'' @ [CHR 0x0A] @ ''data: [DONE]'' @ [CHR 0x0A], ''data: b'' @ [CHR 0x0A]]"
    by (simp add: line_aligned_def)
  from chunks_decoded_in_order [OF h, of "\<lambda>t. Some (answer t)"] h show ?thesis
    by (simp add: chunk_deltas_def sse_payloads_def startsWith_def List.map_filter_simps)
qed

text \<open>
  C2, as stated, fails: a \<^verbatim>\<open>data: \<close> line cut by the boundary between two chunk reads is
  not put together again. The decoder is handed the first part alone, which is not the
  payload of the whole line, and the second part is dropped since it does not start with
  \<^verbatim>\<open>data: \<close>.
\<close>

theorem split_line_not_reassembled:
  \<open>stream_payloads [''data: {"choices":[{"delta":{"con'', ''tent":"Hi"}}]}'' @ [CHR 0x0A]]
      = [''{"choices":[{"delta":{"con'']
   \<and> stream_payloads [''data: {"choices":[{"delta":{"con'' @ ''tent":"Hi"}}]}'' @ [CHR 0x0A]]
      = [''{"choices":[{"delta":{"content":"Hi"}}]}'']\<close>
  by (simp add: stream_payloads_def sse_payloads_def startsWith_def)

text \<open>With any decoder that rejects the cut payload, the event is lost.\<close>

lemma split_line_lost:
  \<open>parse ''{"choices":[{"delta":{"con'' = None \<Longrightarrow>
   stream_deltas parse [''data: {"choices":[{"delta":{"con'', ''tent":"Hi"}}]}'' @ [CHR 0x0A]] = []\<close>
  by (simp add: stream_deltas_payloads stream_payloads_def sse_payloads_def startsWith_def
      List.map_filter_simps)

section \<open>Deleting the active conversation\<close>

text \<open>
  C10. Deleting the active conversation while another one remains: the metadata entry is
  removed and the newest remaining conversation becomes active, but \<^verbatim>\<open>handleSelectChat\<close>
  first saves the conversation it is leaving, which is the one just deleted, so its body
  is in the store again.
\<close>

theorem deleted_active_body_saved_again:
  "activeChatId demo_two = Some ''c1''
   \<and> idb (handleDeleteChat ''c1'' demo_two) (chat_key ''c1'') = Some (demo_chat ''Chat 1'' [])
   \<and> map meta_id (chatMetadatas (handleDeleteChat ''c1'' demo_two)) = [''c2'']
   \<and> activeChatId (handleDeleteChat ''c1'' demo_two) = Some ''c2''
   \<and> activeChat (handleDeleteChat ''c1'' demo_two) = Some demo_other"
  by (simp add: demo_two_def handleDeleteChat_def handleSelectChat_def deleteItem_def setItem_def
      loadChat_def newest_of_def chat_key_def demo_app_def demo_chat_def demo_other_def Let_def)

text \<open>Deleting the only conversation, or one that is not active, does remove the body.\<close>

lemma delete_last_chat:
  "idb (handleDeleteChat ''c1'' (demo_app ''Chat 1'' [])) (chat_key ''c1'') = None
   \<and> chatMetadatas (handleDeleteChat ''c1'' (demo_app ''Chat 1'' [])) = []
   \<and> activeChatId (handleDeleteChat ''c1'' (demo_app ''Chat 1'' [])) = None
   \<and> activeChat (handleDeleteChat ''c1'' (demo_app ''Chat 1'' [])) = None"
  by (simp add: handleDeleteChat_def deleteItem_def chat_key_def demo_app_def demo_chat_def Let_def)

lemma delete_inactive_chat:
  "idb (handleDeleteChat ''c2'' demo_two) (chat_key ''c2'') = None
   \<and> map meta_id (chatMetadatas (handleDeleteChat ''c2'' demo_two)) = [''c1'']
   \<and> activeChatId (handleDeleteChat ''c2'' demo_two) = Some ''c1''"
  by (simp add: demo_two_def handleDeleteChat_def deleteItem_def chat_key_def demo_app_def
      demo_chat_def demo_other_def Let_def)

lemma newest_of_mem: "newest_of m ms \<in> set (m # ms)"
proof -
  have "foldl (\<lambda>newest current. if meta_created current > meta_created newest then current else newest) a ms
          \<in> insert a (set ms)" for a
    by (induction ms arbitrary: a) (auto split: if_splits)
  then show ?thesis by (simp add: newest_of_def)
qed

lemma newest_of_max: "\<forall>x \<in> set (m # ms). meta_created x \<le> meta_created (newest_of m ms)"
proof -
  have "meta_created a \<le> meta_created (foldl (\<lambda>newest current. if meta_created current > meta_created newest then current else newest) a ms)
        \<and> (\<forall>x \<in> set ms. meta_created x \<le> meta_created (foldl (\<lambda>newest current. if meta_created current > meta_created newest then current else newest) a ms))" for a
  proof (induction ms arbitrary: a)
    case Nil
    then show ?case by simp
  next
    case (Cons b ms)
    from Cons [of "if meta_created b > meta_created a then b else a"]
    show ?case by (auto split: if_splits)
  qed
  then show ?thesis by (simp add: newest_of_def)
qed

text \<open>
  In general: the metadata entry is removed and the newest remaining conversation is
  selected when its body loads, while the body of the deleted active conversation is
  written back whenever another conversation remains.
\<close>

lemma handleSelectChat_metadata [simp]: "chatMetadatas (handleSelectChat x s) = chatMetadatas s"
  by (simp add: handleSelectChat_def setItem_def Let_def split: option.splits)

lemma delete_removes_metadata:
  "chatMetadatas (handleDeleteChat cid s) = filter (\<lambda>meta. meta_id meta \<noteq> cid) (chatMetadatas s)"
  by (simp add: handleDeleteChat_def deleteItem_def Let_def split: list.splits)

lemma delete_active_saves_again:
  assumes "activeChatId s = Some cid" and "activeChat s = Some ac" and "chat_id ac = cid"
    and "filter (\<lambda>meta. meta_id meta \<noteq> cid) (chatMetadatas s) \<noteq> []"
  shows "idb (handleDeleteChat cid s) (chat_key cid) = Some ac"
proof -
  from assms(4) obtain m ms where f: "filter (\<lambda>meta. meta_id meta \<noteq> cid) (chatMetadatas s) = m # ms"
    by (cases "filter (\<lambda>meta. meta_id meta \<noteq> cid) (chatMetadatas s)") auto
  have "newest_of m ms \<in> set (filter (\<lambda>meta. meta_id meta \<noteq> cid) (chatMetadatas s))"
    using newest_of_mem [of m ms] f by simp
  then have ne: "meta_id (newest_of m ms) \<noteq> cid" by simp
  show ?thesis
    using assms(1,2,3) f ne
    by (simp add: handleDeleteChat_def handleSelectChat_def deleteItem_def setItem_def loadChat_def
        Let_def split: option.splits)
qed

lemma delete_active_selects_newest:
  assumes "activeChatId s = Some cid"
    and "filter (\<lambda>meta. meta_id meta \<noteq> cid) (chatMetadatas s) = m # ms"
    and "idb s (chat_key (meta_id (newest_of m ms))) = Some c" and "activeChat s = None \<or> (\<exists>ac. activeChat s = Some ac \<and> chat_id ac = cid)"
  shows "activeChat (handleDeleteChat cid s) = Some c
       \<and> activeChatId (handleDeleteChat cid s) = Some (meta_id (newest_of m ms))"
proof -
  have "newest_of m ms \<in> set (filter (\<lambda>meta. meta_id meta \<noteq> cid) (chatMetadatas s))"
    using newest_of_mem [of m ms] assms(2) by simp
  then have ne: "meta_id (newest_of m ms) \<noteq> cid" by simp
  then have k: "chat_key (meta_id (newest_of m ms)) \<noteq> chat_key cid" by simp
  show ?thesis
    using assms ne k
    by (auto simp: handleDeleteChat_def handleSelectChat_def deleteItem_def setItem_def loadChat_def
        Let_def split: option.splits)
qed

end
